theory Spec2Isabelle
  imports Main
begin

section \<open>What the mesh kernel hands to the converter\<close>

text \<open>
  \<^verbatim>\<open>convert_to_stl_with_gmsh\<close> reads everything it works on through the kernel's
  introspection calls: \<^verbatim>\<open>getNodes\<close> (node tags and a flat coordinate buffer),
  \<^verbatim>\<open>getElementTypes\<close>, and per element type \<^verbatim>\<open>getElementsByType\<close> (element
  tags and a flat connectivity buffer) and \<^verbatim>\<open>getElementProperties\<close> (whose first
  component is the type's name). One \<open>elem_block\<close> holds what these calls return
  for one element type; the blocks are listed in the order of \<^verbatim>\<open>getElementTypes\<close>.
  Node tags are unsigned integers; coordinates are never computed with, so their
  type is a parameter.
\<close>

type_synonym face = "nat list"

record elem_block =
  elem_type :: int
  elem_name :: string
  elem_tags :: "nat list"
  elem_connectivity :: "nat list"

record 'c gmsh_model =
  node_tags :: "nat list"
  node_coords :: "'c list"
  element_blocks :: "elem_block list"

text \<open>Every way the call can raise.\<close>

datatype error =
    ReadError
  | TempWriteError
  | GmshInitError
  | GmshOpenError
  | GmshFinalizeError
  | ReshapeError
  | UnknownElementType string
  | NoSurfaceElements
  | EmptySequence
  | NoValidTriangles
  | StlWriteError

section \<open>Reshaping a flat buffer\<close>

text \<open>
  \<^verbatim>\<open>a.reshape(-1, k)\<close>: row \<open>i\<close> is \<open>a[i*k : (i+1)*k]\<close>; the call raises when the
  length of the buffer is not a multiple of \<open>k\<close>.
\<close>

definition reshape :: "nat \<Rightarrow> 'a list \<Rightarrow> error + 'a list list" where
  "reshape k xs =
     (if length xs mod k \<noteq> 0 then Inl ReshapeError
      else Inr (map (\<lambda>i. take k (drop (i * k) xs)) [0..<length xs div k]))"

section \<open>Direct classification pass (lines 43-104)\<close>

definition tetra_names :: "string list" where
  "tetra_names = [''4-node tetrahedron'', ''Tetrahedron'', ''tetra'']"

definition hexa_names :: "string list" where
  "hexa_names = [''8-node hexahedron'', ''Hexahedron'', ''Hexahedron 8'', ''hexahedron'']"

definition triangle_names :: "string list" where
  "triangle_names = [''3-node triangle'', ''Triangle'', ''triangle'']"

definition quad_names :: "string list" where
  "quad_names = [''4-node quadrangle'', ''Quadrangle'', ''quad'']"

definition tet_faces :: "nat list \<Rightarrow> face list" where
  "tet_faces tet =
     [[tet ! 0, tet ! 1, tet ! 2],
      [tet ! 0, tet ! 1, tet ! 3],
      [tet ! 0, tet ! 2, tet ! 3],
      [tet ! 1, tet ! 2, tet ! 3]]"

definition hex_faces :: "nat list \<Rightarrow> face list" where
  "hex_faces hex_elem =
     [[hex_elem ! 0, hex_elem ! 1, hex_elem ! 2],
      [hex_elem ! 0, hex_elem ! 2, hex_elem ! 3],
      [hex_elem ! 4, hex_elem ! 5, hex_elem ! 6],
      [hex_elem ! 4, hex_elem ! 6, hex_elem ! 7],
      [hex_elem ! 0, hex_elem ! 1, hex_elem ! 5],
      [hex_elem ! 0, hex_elem ! 5, hex_elem ! 4],
      [hex_elem ! 1, hex_elem ! 2, hex_elem ! 6],
      [hex_elem ! 1, hex_elem ! 6, hex_elem ! 5],
      [hex_elem ! 2, hex_elem ! 3, hex_elem ! 7],
      [hex_elem ! 2, hex_elem ! 7, hex_elem ! 6],
      [hex_elem ! 3, hex_elem ! 0, hex_elem ! 4],
      [hex_elem ! 3, hex_elem ! 4, hex_elem ! 7]]"

definition tri_faces :: "nat list \<Rightarrow> face list" where
  "tri_faces tri = [[tri ! 0, tri ! 1, tri ! 2]]"

definition quad_faces :: "nat list \<Rightarrow> face list" where
  "quad_faces quad =
     [[quad ! 0, quad ! 1, quad ! 2],
      [quad ! 0, quad ! 2, quad ! 3]]"

text \<open>The faces one element type adds to \<^verbatim>\<open>surface_elements\<close>, or the error raised.\<close>

definition extend_rows :: "nat \<Rightarrow> (nat list \<Rightarrow> face list) \<Rightarrow> nat list \<Rightarrow> error + face list" where
  "extend_rows k faces_of conn =
     (case reshape k conn of
        Inl e \<Rightarrow> Inl e
      | Inr connectivity \<Rightarrow> Inr (concat (map faces_of connectivity)))"

definition classify_block :: "elem_block \<Rightarrow> error + face list" where
  "classify_block b =
     (if elem_name b \<in> set tetra_names then extend_rows 4 tet_faces (elem_connectivity b)
      else if elem_name b \<in> set hexa_names then extend_rows 8 hex_faces (elem_connectivity b)
      else if elem_name b \<in> set triangle_names then extend_rows 3 tri_faces (elem_connectivity b)
      else if elem_name b \<in> set quad_names then extend_rows 4 quad_faces (elem_connectivity b)
      else Inl (UnknownElementType (elem_name b)))"

fun classify_blocks :: "face list \<Rightarrow> elem_block list \<Rightarrow> error + face list" where
  "classify_blocks surface_elements [] = Inr surface_elements"
| "classify_blocks surface_elements (b # bs) =
     (case classify_block b of
        Inl e \<Rightarrow> Inl e
      | Inr faces \<Rightarrow> classify_blocks (surface_elements @ faces) bs)"

section \<open>Fallback boundary extraction (lines 106-130)\<close>

text \<open>\<^verbatim>\<open>sub in s\<close> on strings: \<open>sub\<close> occurs in \<open>s\<close> as a contiguous piece.\<close>

fun str_in :: "string \<Rightarrow> string \<Rightarrow> bool" where
  "str_in sub [] = (sub = [])"
| "str_in sub (c # cs) = (take (length sub) (c # cs) = sub \<or> str_in sub cs)"

text \<open>
  \<^verbatim>\<open>all_faces\<close> is a dictionary from the sorted node triple to the face; a
  dictionary keeps its keys in insertion order, so it is an association list with
  distinct keys: deleting filters the key out, inserting a new key appends.
\<close>

type_synonym face_dict = "(nat list \<times> face) list"

definition toggle_face :: "nat list \<Rightarrow> face_dict \<Rightarrow> face_dict" where
  "toggle_face face all_faces =
     (if face \<in> set (map fst all_faces)
      then filter (\<lambda>kv. fst kv \<noteq> face) all_faces
      else all_faces @ [(face, face)])"

definition sorted_tet_faces :: "nat list \<Rightarrow> nat list list" where
  "sorted_tet_faces tet =
     [sort [tet ! 0, tet ! 1, tet ! 2],
      sort [tet ! 0, tet ! 1, tet ! 3],
      sort [tet ! 0, tet ! 2, tet ! 3],
      sort [tet ! 1, tet ! 2, tet ! 3]]"

definition fallback_tet :: "nat list \<Rightarrow> face_dict \<Rightarrow> face_dict" where
  "fallback_tet tet all_faces = fold toggle_face (sorted_tet_faces tet) all_faces"

definition fallback_block :: "elem_block \<Rightarrow> face_dict \<Rightarrow> error + face_dict" where
  "fallback_block b all_faces =
     (if str_in ''4-node tetrahedron'' (elem_name b) \<or> str_in ''Tetrahedron'' (elem_name b)
      then (case reshape 4 (elem_connectivity b) of
              Inl e \<Rightarrow> Inl e
            | Inr connectivity \<Rightarrow> Inr (fold fallback_tet connectivity all_faces))
      else Inr all_faces)"

fun fallback_blocks :: "face_dict \<Rightarrow> elem_block list \<Rightarrow> error + face_dict" where
  "fallback_blocks all_faces [] = Inr all_faces"
| "fallback_blocks all_faces (b # bs) =
     (case fallback_block b all_faces of
        Inl e \<Rightarrow> Inl e
      | Inr all_faces' \<Rightarrow> fallback_blocks all_faces' bs)"

definition fallback_pass :: "elem_block list \<Rightarrow> error + face list" where
  "fallback_pass blocks =
     (case fallback_blocks [] blocks of
        Inl e \<Rightarrow> Inl e
      | Inr all_faces \<Rightarrow> Inr (map snd all_faces))"

text \<open>Lines 40-135: both passes and the check that some face was derived.\<close>

definition derive_surface :: "elem_block list \<Rightarrow> error + face list" where
  "derive_surface blocks =
     (case classify_blocks [] blocks of
        Inl e \<Rightarrow> Inl e
      | Inr surface_elements \<Rightarrow>
          (case (if surface_elements = [] then fallback_pass blocks else Inr surface_elements) of
             Inl e \<Rightarrow> Inl e
           | Inr surface_elements' \<Rightarrow>
               if surface_elements' = [] then Inl NoSurfaceElements else Inr surface_elements'))"

section \<open>Node remapping (lines 137-152)\<close>

text \<open>
  \<^verbatim>\<open>{tag: i for i, tag in enumerate(node_tags)}\<close>: the comprehension stores
  \<open>tag \<mapsto> i\<close> for each position in turn, so a later entry overwrites.
\<close>

fun enumerate_into :: "nat \<Rightarrow> nat list \<Rightarrow> (nat \<rightharpoonup> nat) \<Rightarrow> (nat \<rightharpoonup> nat)" where
  "enumerate_into i [] node_map = node_map"
| "enumerate_into i (tag # rest) node_map = enumerate_into (Suc i) rest (node_map(tag \<mapsto> i))"

definition build_node_map :: "nat list \<Rightarrow> (nat \<rightharpoonup> nat)" where
  "build_node_map tags = enumerate_into 0 tags Map.empty"

text \<open>
  \<^verbatim>\<open>[node_map[node_tag] for node_tag in face]\<close>: \<open>Inl tag\<close> is the \<^verbatim>\<open>KeyError\<close>
  raised at the first tag that is not a key.
\<close>

fun map_face :: "(nat \<rightharpoonup> nat) \<Rightarrow> face \<Rightarrow> nat + nat list" where
  "map_face node_map [] = Inr []"
| "map_face node_map (node_tag # rest) =
     (case node_map node_tag of
        None \<Rightarrow> Inl node_tag
      | Some i \<Rightarrow>
          (case map_face node_map rest of
             Inl missing \<Rightarrow> Inl missing
           | Inr mapped \<Rightarrow> Inr (i # mapped)))"

text \<open>
  The loop over \<^verbatim>\<open>surface_elements\<close>: the state is the list \<^verbatim>\<open>triangles\<close> and the
  warnings printed so far (each names the missing node).
\<close>

fun remap_faces :: "(nat \<rightharpoonup> nat) \<Rightarrow> face list \<Rightarrow> nat list list \<times> nat list \<Rightarrow> nat list list \<times> nat list" where
  "remap_faces node_map [] st = st"
| "remap_faces node_map (face # rest) (triangles, warnings) =
     (case map_face node_map face of
        Inl missing \<Rightarrow> remap_faces node_map rest (triangles, warnings @ [missing])
      | Inr mapped_face \<Rightarrow> remap_faces node_map rest (triangles @ [mapped_face], warnings))"

section \<open>The conversion with its files and external calls\<close>

text \<open>
  The mesh handed to the STL writer: \<^verbatim>\<open>meshio.Mesh(coords, [("triangle", triangles)])\<close>.
\<close>

record 'c stl_mesh =
  points :: "'c list list"
  triangle_cells :: "nat list list"

text \<open>
  The two files the call touches: whether \<^verbatim>\<open>temp_conversion.msh\<close> exists, and what
  the output path holds.
\<close>

record 'c files =
  temp_exists :: bool
  output_file :: "'c stl_mesh option"

text \<open>
  How the external calls of one invocation behave. Writing the intermediate file
  can fail before the file is created or after.
\<close>

datatype temp_write_outcome = TempWritten | TempFailsNoFile | TempFailsFileLeft

record 'c environment =
  meshio_read_ok :: bool
  temp_write :: temp_write_outcome
  gmsh_initialize_ok :: bool
  gmsh_open_ok :: bool
  gmsh_view :: "'c gmsh_model"
  stl_write_ok :: bool
  gmsh_finalize_ok :: bool

text \<open>
  Lines 29-166, the body of \<^verbatim>\<open>try\<close>. The result is the list of warnings on
  success. A failing STL writer is taken to leave the output path as it was.
\<close>

definition try_body :: "'c environment \<Rightarrow> 'c files \<Rightarrow> (error + nat list) \<times> 'c files" where
  "try_body env fs =
     (if \<not> gmsh_open_ok env then (Inl GmshOpenError, fs)
      else
        (case reshape 3 (node_coords (gmsh_view env)) of
           Inl e \<Rightarrow> (Inl e, fs)
         | Inr coords \<Rightarrow>
             (case derive_surface (element_blocks (gmsh_view env)) of
                Inl e \<Rightarrow> (Inl e, fs)
              | Inr surface_elements \<Rightarrow>
                  if node_tags (gmsh_view env) = [] then (Inl EmptySequence, fs)
                  else
                    (case remap_faces (build_node_map (node_tags (gmsh_view env)))
                            surface_elements ([], []) of
                       (triangles, warnings) \<Rightarrow>
                         if length triangles > 0 then
                           (if stl_write_ok env
                            then (Inr warnings,
                                  fs\<lparr>output_file :=
                                       Some \<lparr>points = coords, triangle_cells = triangles\<rparr>\<rparr>)
                            else (Inl StlWriteError, fs))
                         else (Inl NoValidTriangles, fs)))))"

text \<open>
  The whole function. Lines 19-26 run before \<^verbatim>\<open>try\<close>; the \<^verbatim>\<open>finally\<close> block
  (lines 171-176) finalizes the kernel and then removes the intermediate file.
\<close>

definition convert_to_stl_with_gmsh :: "'c environment \<Rightarrow> 'c files \<Rightarrow> (error + nat list) \<times> 'c files" where
  "convert_to_stl_with_gmsh env fs =
     (if \<not> meshio_read_ok env then (Inl ReadError, fs)
      else
        (case temp_write env of
           TempFailsNoFile \<Rightarrow> (Inl TempWriteError, fs)
         | TempFailsFileLeft \<Rightarrow> (Inl TempWriteError, fs\<lparr>temp_exists := True\<rparr>)
         | TempWritten \<Rightarrow>
             if \<not> gmsh_initialize_ok env then (Inl GmshInitError, fs\<lparr>temp_exists := True\<rparr>)
             else
               (case try_body env (fs\<lparr>temp_exists := True\<rparr>) of
                  (r, fs') \<Rightarrow>
                    if \<not> gmsh_finalize_ok env then (Inl GmshFinalizeError, fs')
                    else (r, fs'\<lparr>temp_exists := False\<rparr>))))"

text \<open>
  Node \<open>j\<close> of element \<open>i\<close> in a flat connectivity buffer with \<open>k\<close> nodes per
  element (the row-major layout \<^verbatim>\<open>reshape(-1, k)\<close> reads).
\<close>

definition elem_node :: "nat \<Rightarrow> nat list \<Rightarrow> nat \<Rightarrow> nat \<Rightarrow> nat" where
  "elem_node k conn i j = conn ! (k * i + j)"

section \<open>Example meshes\<close>

text \<open>Two tetrahedra 1-2-3-4 and 2-3-4-5, which share the face 2-3-4.\<close>

definition two_tets_block :: elem_block where
  "two_tets_block =
     \<lparr>elem_type = 4, elem_name = ''Tetrahedron'', elem_tags = [1, 2],
      elem_connectivity = [1, 2, 3, 4, 2, 3, 4, 5]\<rparr>"

text \<open>One hexahedron on the nodes 1..8, under the name the kernel gives type 5.\<close>

definition cube_block :: elem_block where
  "cube_block =
     \<lparr>elem_type = 5, elem_name = ''Hexahedron 8'', elem_tags = [1],
      elem_connectivity = [1, 2, 3, 4, 5, 6, 7, 8]\<rparr>"

text \<open>
  The kernel's view of the two example meshes (integer coordinates), an invocation
  in which every external call succeeds, and a directory with neither file.
\<close>

definition two_tets_model :: "int gmsh_model" where
  "two_tets_model =
     \<lparr>node_tags = [1, 2, 3, 4, 5],
      node_coords = [0, 0, 0,  1, 0, 0,  0, 1, 0,  0, 0, 1,  1, 1, 1],
      element_blocks = [two_tets_block]\<rparr>"

definition cube_model :: "int gmsh_model" where
  "cube_model =
     \<lparr>node_tags = [1, 2, 3, 4, 5, 6, 7, 8],
      node_coords = [0, 0, 0,  1, 0, 0,  1, 1, 0,  0, 1, 0,
                     0, 0, 1,  1, 0, 1,  1, 1, 1,  0, 1, 1],
      element_blocks = [cube_block]\<rparr>"

definition all_calls_succeed :: "'c gmsh_model \<Rightarrow> 'c environment" where
  "all_calls_succeed view =
     \<lparr>meshio_read_ok = True, temp_write = TempWritten, gmsh_initialize_ok = True,
      gmsh_open_ok = True, gmsh_view = view, stl_write_ok = True,
      gmsh_finalize_ok = True\<rparr>"

definition no_files :: "'c files" where
  "no_files = \<lparr>temp_exists = False, output_file = None\<rparr>"

text \<open>
  An invocation gets as far as the element loop when every external call before it
  succeeds and the coordinate buffer reshapes to three numbers per node; the clause
  on finalizing says that the \<^verbatim>\<open>finally\<close> block does not replace the exception.
\<close>

definition mesh_loaded :: "'c environment \<Rightarrow> bool" where
  "mesh_loaded env \<longleftrightarrow>
     meshio_read_ok env \<and> temp_write env = TempWritten \<and> gmsh_initialize_ok env
     \<and> gmsh_open_ok env \<and> gmsh_finalize_ok env
     \<and> length (node_coords (gmsh_view env)) mod 3 = 0"

text \<open>
  More example meshes on the nodes 1..4 of a unit tetrahedron: no element at all;
  three triangles of which the second names a node 9 that does not exist; one
  triangle on nodes that do not exist; one element of a type named
  \<open>Tetrahedron 4\<close>, which is in none of the name lists.
\<close>

definition nodes_only_model :: "int gmsh_model" where
  "nodes_only_model =
     \<lparr>node_tags = [1, 2, 3, 4],
      node_coords = [0, 0, 0,  1, 0, 0,  0, 1, 0,  0, 0, 1],
      element_blocks = []\<rparr>"

definition one_dangling_model :: "int gmsh_model" where
  "one_dangling_model =
     \<lparr>node_tags = [1, 2, 3, 4],
      node_coords = [0, 0, 0,  1, 0, 0,  0, 1, 0,  0, 0, 1],
      element_blocks =
        [\<lparr>elem_type = 2, elem_name = ''Triangle'', elem_tags = [1, 2, 3],
          elem_connectivity = [1, 2, 3,  2, 3, 9,  2, 3, 4]\<rparr>]\<rparr>"

definition all_dangling_model :: "int gmsh_model" where
  "all_dangling_model =
     \<lparr>node_tags = [1, 2, 3, 4],
      node_coords = [0, 0, 0,  1, 0, 0,  0, 1, 0,  0, 0, 1],
      element_blocks =
        [\<lparr>elem_type = 2, elem_name = ''Triangle'', elem_tags = [1],
          elem_connectivity = [7, 8, 9]\<rparr>]\<rparr>"

definition unknown_type_model :: "int gmsh_model" where
  "unknown_type_model =
     \<lparr>node_tags = [1, 2, 3, 4],
      node_coords = [0, 0, 0,  1, 0, 0,  0, 1, 0,  0, 0, 1],
      element_blocks =
        [\<lparr>elem_type = 4, elem_name = ''Tetrahedron 4'', elem_tags = [1],
          elem_connectivity = [1, 2, 3, 4]\<rparr>]\<rparr>"

text \<open>One triangle on the nodes 1, 2, 3 of four: node 4 is used by no element.\<close>

definition unused_node_model :: "int gmsh_model" where
  "unused_node_model =
     \<lparr>node_tags = [1, 2, 3, 4],
      node_coords = [0, 0, 0,  1, 0, 0,  0, 1, 0,  0, 0, 1],
      element_blocks =
        [\<lparr>elem_type = 2, elem_name = ''Triangle'', elem_tags = [1],
          elem_connectivity = [1, 2, 3]\<rparr>]\<rparr>"

text \<open>
  The single tetrahedron on the nodes 1:(0,0,0), 2:(1,0,0), 3:(0,1,0), 4:(0,0,1), as
  the kernel presents it: one element of type 4, whose name the kernel gives as
  \<open>Tetrahedron 4\<close> (as it gives \<open>Hexahedron 8\<close> for type 5).
\<close>

definition single_tet_model :: "int gmsh_model" where
  "single_tet_model =
     \<lparr>node_tags = [1, 2, 3, 4],
      node_coords = [0, 0, 0,  1, 0, 0,  0, 1, 0,  0, 0, 1],
      element_blocks =
        [\<lparr>elem_type = 4, elem_name = ''Tetrahedron 4'', elem_tags = [1],
          elem_connectivity = [1, 2, 3, 4]\<rparr>]\<rparr>"

section \<open>Reshaping\<close>

lemma reshape_rows:
  assumes "length xs = k * n" and "0 < k"
  shows "reshape k xs = Inr (map (\<lambda>i. take k (drop (i * k) xs)) [0..<n])"
  using assms by (simp add: reshape_def)

lemma reshape_row_length:
  assumes "reshape k xs = Inr rows" and "0 < k" and "row \<in> set rows"
  shows "length row = k"
proof -
  from assms(1) have m: "length xs mod k = 0"
    and rows: "rows = map (\<lambda>i. take k (drop (i * k) xs)) [0..<length xs div k]"
    by (auto simp: reshape_def split: if_splits)
  from assms(3) rows obtain i where i: "i < length xs div k" and row: "row = take k (drop (i * k) xs)"
    by auto
  from i have "Suc i \<le> length xs div k" by simp
  then have "Suc i * k \<le> length xs div k * k" by (rule mult_le_mono1)
  also have "\<dots> \<le> length xs" by simp
  finally have "i * k + k \<le> length xs" by simp
  then show ?thesis by (simp add: row)
qed

lemma row_nth:
  assumes "i * k + k \<le> length c" and "j < k"
  shows "take k (drop (i * k) c) ! j = elem_node k c i j"
  using assms by (simp add: elem_node_def mult.commute)

lemma length_concat_const:
  assumes "\<And>x. x \<in> set xs \<Longrightarrow> length (f x) = k"
  shows "length (concat (map f xs)) = k * length xs"
  using assms by (induction xs) auto

section \<open>The direct pass\<close>

lemma classify_blocks_acc:
  "classify_blocks acc blocks =
     (case classify_blocks [] blocks of Inl e \<Rightarrow> Inl e | Inr fs \<Rightarrow> Inr (acc @ fs))"
proof (induction blocks arbitrary: acc)
  case Nil
  show ?case by simp
next
  case (Cons b bs)
  show ?case
  proof (cases "classify_block b")
    case (Inl e)
    then show ?thesis by simp
  next
    case (Inr fs)
    then show ?thesis
      using Cons.IH [of "acc @ fs"] Cons.IH [of fs]
      by (simp split: sum.splits)
  qed
qed

lemma classify_blocks_all_ok:
  assumes "\<And>b. b \<in> set blocks \<Longrightarrow> classify_block b = Inr (F b)"
  shows "classify_blocks acc blocks = Inr (acc @ concat (map F blocks))"
  using assms
proof (induction blocks arbitrary: acc)
  case Nil
  show ?case by simp
next
  case (Cons b bs)
  have "classify_block b = Inr (F b)" using Cons.prems by simp
  moreover have "classify_blocks (acc @ F b) bs = Inr ((acc @ F b) @ concat (map F bs))"
    using Cons.prems by (intro Cons.IH) simp
  ultimately show ?case by simp
qed

lemma extend_rows_ok:
  assumes "length conn = k * n" and "0 < k"
  shows "extend_rows k f conn = Inr (concat (map (\<lambda>i. f (take k (drop (i * k) conn))) [0..<n]))"
  using assms by (simp add: extend_rows_def reshape_rows comp_def)

lemma extend_rows_cong:
  assumes len: "length conn = k * n" and k: "0 < k"
    and row: "\<And>i. i * k + k \<le> length conn \<Longrightarrow> f (take k (drop (i * k) conn)) = g i"
  shows "extend_rows k f conn = Inr (concat (map g [0..<n]))"
proof -
  have "map (\<lambda>i. f (take k (drop (i * k) conn))) [0..<n] = map g [0..<n]"
  proof (rule map_cong [OF refl])
    fix i assume "i \<in> set [0..<n]"
    then have "Suc i \<le> n" by simp
    then have "Suc i * k \<le> n * k" by (rule mult_le_mono1)
    then have "i * k + k \<le> length conn" using len by (simp add: mult.commute)
    then show "f (take k (drop (i * k) conn)) = g i" by (rule row)
  qed
  then have "concat (map (\<lambda>i. f (take k (drop (i * k) conn))) [0..<n]) = concat (map g [0..<n])"
    by (rule arg_cong [where f = concat])
  with extend_rows_ok [OF len k, of f] show ?thesis by (simp only:)
qed

lemma tet_faces_row:
  assumes "i * 4 + 4 \<le> length c"
  shows "tet_faces (take 4 (drop (i * 4) c)) =
           [[elem_node 4 c i 0, elem_node 4 c i 1, elem_node 4 c i 2],
            [elem_node 4 c i 0, elem_node 4 c i 1, elem_node 4 c i 3],
            [elem_node 4 c i 0, elem_node 4 c i 2, elem_node 4 c i 3],
            [elem_node 4 c i 1, elem_node 4 c i 2, elem_node 4 c i 3]]"
  using row_nth [OF assms, of 0] row_nth [OF assms, of 1] row_nth [OF assms, of 2]
    row_nth [OF assms, of 3]
  by (simp add: tet_faces_def)

lemma hex_faces_row:
  assumes "i * 8 + 8 \<le> length c"
  shows "hex_faces (take 8 (drop (i * 8) c)) =
           [[elem_node 8 c i 0, elem_node 8 c i 1, elem_node 8 c i 2],
            [elem_node 8 c i 0, elem_node 8 c i 2, elem_node 8 c i 3],
            [elem_node 8 c i 4, elem_node 8 c i 5, elem_node 8 c i 6],
            [elem_node 8 c i 4, elem_node 8 c i 6, elem_node 8 c i 7],
            [elem_node 8 c i 0, elem_node 8 c i 1, elem_node 8 c i 5],
            [elem_node 8 c i 0, elem_node 8 c i 5, elem_node 8 c i 4],
            [elem_node 8 c i 1, elem_node 8 c i 2, elem_node 8 c i 6],
            [elem_node 8 c i 1, elem_node 8 c i 6, elem_node 8 c i 5],
            [elem_node 8 c i 2, elem_node 8 c i 3, elem_node 8 c i 7],
            [elem_node 8 c i 2, elem_node 8 c i 7, elem_node 8 c i 6],
            [elem_node 8 c i 3, elem_node 8 c i 0, elem_node 8 c i 4],
            [elem_node 8 c i 3, elem_node 8 c i 4, elem_node 8 c i 7]]"
  using row_nth [OF assms, of 0] row_nth [OF assms, of 1] row_nth [OF assms, of 2]
    row_nth [OF assms, of 3] row_nth [OF assms, of 4] row_nth [OF assms, of 5]
    row_nth [OF assms, of 6] row_nth [OF assms, of 7]
  by (simp add: hex_faces_def)

lemma hexa_not_tetra: "name \<in> set hexa_names \<Longrightarrow> name \<notin> set tetra_names"
  by (auto simp: hexa_names_def tetra_names_def)

lemma classify_tetra_block:
  assumes "elem_name b \<in> set tetra_names"
    and "length (elem_connectivity b) = 4 * length (elem_tags b)"
  shows "classify_block b =
     Inr (concat (map (\<lambda>i.
           [[elem_node 4 (elem_connectivity b) i 0, elem_node 4 (elem_connectivity b) i 1,
             elem_node 4 (elem_connectivity b) i 2],
            [elem_node 4 (elem_connectivity b) i 0, elem_node 4 (elem_connectivity b) i 1,
             elem_node 4 (elem_connectivity b) i 3],
            [elem_node 4 (elem_connectivity b) i 0, elem_node 4 (elem_connectivity b) i 2,
             elem_node 4 (elem_connectivity b) i 3],
            [elem_node 4 (elem_connectivity b) i 1, elem_node 4 (elem_connectivity b) i 2,
             elem_node 4 (elem_connectivity b) i 3]])
          [0..<length (elem_tags b)]))"
proof -
  have "classify_block b = extend_rows 4 tet_faces (elem_connectivity b)"
    using assms(1) by (simp add: classify_block_def)
  also have "\<dots> = Inr (concat (map (\<lambda>i.
           [[elem_node 4 (elem_connectivity b) i 0, elem_node 4 (elem_connectivity b) i 1,
             elem_node 4 (elem_connectivity b) i 2],
            [elem_node 4 (elem_connectivity b) i 0, elem_node 4 (elem_connectivity b) i 1,
             elem_node 4 (elem_connectivity b) i 3],
            [elem_node 4 (elem_connectivity b) i 0, elem_node 4 (elem_connectivity b) i 2,
             elem_node 4 (elem_connectivity b) i 3],
            [elem_node 4 (elem_connectivity b) i 1, elem_node 4 (elem_connectivity b) i 2,
             elem_node 4 (elem_connectivity b) i 3]])
          [0..<length (elem_tags b)]))"
    by (rule extend_rows_cong [OF assms(2)]) (simp_all add: tet_faces_row)
  finally show ?thesis .
qed

lemma classify_hexa_block:
  assumes "elem_name b \<in> set hexa_names"
    and "length (elem_connectivity b) = 8 * length (elem_tags b)"
  shows "classify_block b =
     Inr (concat (map (\<lambda>i.
           [[elem_node 8 (elem_connectivity b) i 0, elem_node 8 (elem_connectivity b) i 1,
             elem_node 8 (elem_connectivity b) i 2],
            [elem_node 8 (elem_connectivity b) i 0, elem_node 8 (elem_connectivity b) i 2,
             elem_node 8 (elem_connectivity b) i 3],
            [elem_node 8 (elem_connectivity b) i 4, elem_node 8 (elem_connectivity b) i 5,
             elem_node 8 (elem_connectivity b) i 6],
            [elem_node 8 (elem_connectivity b) i 4, elem_node 8 (elem_connectivity b) i 6,
             elem_node 8 (elem_connectivity b) i 7],
            [elem_node 8 (elem_connectivity b) i 0, elem_node 8 (elem_connectivity b) i 1,
             elem_node 8 (elem_connectivity b) i 5],
            [elem_node 8 (elem_connectivity b) i 0, elem_node 8 (elem_connectivity b) i 5,
             elem_node 8 (elem_connectivity b) i 4],
            [elem_node 8 (elem_connectivity b) i 1, elem_node 8 (elem_connectivity b) i 2,
             elem_node 8 (elem_connectivity b) i 6],
            [elem_node 8 (elem_connectivity b) i 1, elem_node 8 (elem_connectivity b) i 6,
             elem_node 8 (elem_connectivity b) i 5],
            [elem_node 8 (elem_connectivity b) i 2, elem_node 8 (elem_connectivity b) i 3,
             elem_node 8 (elem_connectivity b) i 7],
            [elem_node 8 (elem_connectivity b) i 2, elem_node 8 (elem_connectivity b) i 7,
             elem_node 8 (elem_connectivity b) i 6],
            [elem_node 8 (elem_connectivity b) i 3, elem_node 8 (elem_connectivity b) i 0,
             elem_node 8 (elem_connectivity b) i 4],
            [elem_node 8 (elem_connectivity b) i 3, elem_node 8 (elem_connectivity b) i 4,
             elem_node 8 (elem_connectivity b) i 7]])
          [0..<length (elem_tags b)]))"
proof -
  have "classify_block b = extend_rows 8 hex_faces (elem_connectivity b)"
    using assms(1) hexa_not_tetra [OF assms(1)] by (simp add: classify_block_def)
  also have "\<dots> = Inr (concat (map (\<lambda>i.
           [[elem_node 8 (elem_connectivity b) i 0, elem_node 8 (elem_connectivity b) i 1,
             elem_node 8 (elem_connectivity b) i 2],
            [elem_node 8 (elem_connectivity b) i 0, elem_node 8 (elem_connectivity b) i 2,
             elem_node 8 (elem_connectivity b) i 3],
            [elem_node 8 (elem_connectivity b) i 4, elem_node 8 (elem_connectivity b) i 5,
             elem_node 8 (elem_connectivity b) i 6],
            [elem_node 8 (elem_connectivity b) i 4, elem_node 8 (elem_connectivity b) i 6,
             elem_node 8 (elem_connectivity b) i 7],
            [elem_node 8 (elem_connectivity b) i 0, elem_node 8 (elem_connectivity b) i 1,
             elem_node 8 (elem_connectivity b) i 5],
            [elem_node 8 (elem_connectivity b) i 0, elem_node 8 (elem_connectivity b) i 5,
             elem_node 8 (elem_connectivity b) i 4],
            [elem_node 8 (elem_connectivity b) i 1, elem_node 8 (elem_connectivity b) i 2,
             elem_node 8 (elem_connectivity b) i 6],
            [elem_node 8 (elem_connectivity b) i 1, elem_node 8 (elem_connectivity b) i 6,
             elem_node 8 (elem_connectivity b) i 5],
            [elem_node 8 (elem_connectivity b) i 2, elem_node 8 (elem_connectivity b) i 3,
             elem_node 8 (elem_connectivity b) i 7],
            [elem_node 8 (elem_connectivity b) i 2, elem_node 8 (elem_connectivity b) i 7,
             elem_node 8 (elem_connectivity b) i 6],
            [elem_node 8 (elem_connectivity b) i 3, elem_node 8 (elem_connectivity b) i 0,
             elem_node 8 (elem_connectivity b) i 4],
            [elem_node 8 (elem_connectivity b) i 3, elem_node 8 (elem_connectivity b) i 4,
             elem_node 8 (elem_connectivity b) i 7]])
          [0..<length (elem_tags b)]))"
    by (rule extend_rows_cong [OF assms(2)]) (simp_all add: hex_faces_row)
  finally show ?thesis .
qed

section \<open>Claims on the direct pass\<close>

text \<open>
  Under one of the three names that line 51 lists, a direct pass over element types
  with four connectivity entries per element raises nothing and emits, for each
  element in turn, exactly the four triangles on its nodes (0,1,2), (0,1,3), (0,2,3),
  (1,2,3); so the number of faces is four times the number of elements. This is the
  branch of lines 51-62 taken on its own; whether a tetrahedral mesh reaches it
  depends on the name the kernel reports for the element type.
\<close>

lemma tetra_direct_pass:
  assumes names: "\<forall>b\<in>set blocks. elem_name b \<in> set tetra_names"
    and counts: "\<forall>b\<in>set blocks. length (elem_connectivity b) = 4 * length (elem_tags b)"
  shows "\<exists>faces. classify_blocks [] blocks = Inr faces
           \<and> faces = concat (map (\<lambda>b. concat (map (\<lambda>i.
                 [[elem_node 4 (elem_connectivity b) i 0, elem_node 4 (elem_connectivity b) i 1,
                   elem_node 4 (elem_connectivity b) i 2],
                  [elem_node 4 (elem_connectivity b) i 0, elem_node 4 (elem_connectivity b) i 1,
                   elem_node 4 (elem_connectivity b) i 3],
                  [elem_node 4 (elem_connectivity b) i 0, elem_node 4 (elem_connectivity b) i 2,
                   elem_node 4 (elem_connectivity b) i 3],
                  [elem_node 4 (elem_connectivity b) i 1, elem_node 4 (elem_connectivity b) i 2,
                   elem_node 4 (elem_connectivity b) i 3]])
                [0..<length (elem_tags b)])) blocks)
           \<and> length faces = 4 * sum_list (map (\<lambda>b. length (elem_tags b)) blocks)"
proof -
  let ?F = "\<lambda>b. concat (map (\<lambda>i.
                 [[elem_node 4 (elem_connectivity b) i 0, elem_node 4 (elem_connectivity b) i 1,
                   elem_node 4 (elem_connectivity b) i 2],
                  [elem_node 4 (elem_connectivity b) i 0, elem_node 4 (elem_connectivity b) i 1,
                   elem_node 4 (elem_connectivity b) i 3],
                  [elem_node 4 (elem_connectivity b) i 0, elem_node 4 (elem_connectivity b) i 2,
                   elem_node 4 (elem_connectivity b) i 3],
                  [elem_node 4 (elem_connectivity b) i 1, elem_node 4 (elem_connectivity b) i 2,
                   elem_node 4 (elem_connectivity b) i 3]])
                [0..<length (elem_tags b)])"
  have "classify_blocks [] blocks = Inr ([] @ concat (map ?F blocks))"
  proof (rule classify_blocks_all_ok)
    fix b assume "b \<in> set blocks"
    with names counts show "classify_block b = Inr (?F b)"
      by (intro classify_tetra_block) auto
  qed
  moreover have "length (concat (map ?F blocks)) = 4 * sum_list (map (\<lambda>b. length (elem_tags b)) blocks)"
    by (induction blocks) (simp_all add: length_concat_const)
  ultimately show ?thesis by simp
qed

lemma tetra_direct_pass_example:
  "classify_blocks [] [two_tets_block] =
     Inr [[1, 2, 3], [1, 2, 4], [1, 3, 4], [2, 3, 4], [2, 3, 4], [2, 3, 5], [2, 4, 5], [3, 4, 5]]
   \<and> length [[1, 2, 3], [1, 2, 4], [1, 3, 4], [2, 3, 4], [2, 3, 4], [2, 3, 5], [2, 4, 5], [3, 4, 5 :: nat]]
       = 4 * length (elem_tags two_tets_block)"
  using tetra_direct_pass [of "[two_tets_block]"]
  by (simp add: two_tets_block_def tetra_names_def elem_node_def upt_rec)

text \<open>
  C8. A direct pass over hexahedral element types (eight connectivity entries per
  element) raises nothing and emits, for each hexahedron in turn, exactly twelve
  triangles: bottom (0,1,2), (0,2,3); top (4,5,6), (4,6,7); and for each side the
  two triangles on a bottom edge and the top edge above it. The two triangles of
  each pair together have the four corners of one of the six quadrilateral faces.
  The number of faces is twelve times the number of hexahedra.
\<close>

theorem hexa_direct_pass:
  assumes names: "\<forall>b\<in>set blocks. elem_name b \<in> set hexa_names"
    and counts: "\<forall>b\<in>set blocks. length (elem_connectivity b) = 8 * length (elem_tags b)"
  shows "(\<exists>faces. classify_blocks [] blocks = Inr faces
           \<and> faces = concat (map (\<lambda>b. concat (map (\<lambda>i.
                 [[elem_node 8 (elem_connectivity b) i 0, elem_node 8 (elem_connectivity b) i 1,
                   elem_node 8 (elem_connectivity b) i 2],
                  [elem_node 8 (elem_connectivity b) i 0, elem_node 8 (elem_connectivity b) i 2,
                   elem_node 8 (elem_connectivity b) i 3],
                  [elem_node 8 (elem_connectivity b) i 4, elem_node 8 (elem_connectivity b) i 5,
                   elem_node 8 (elem_connectivity b) i 6],
                  [elem_node 8 (elem_connectivity b) i 4, elem_node 8 (elem_connectivity b) i 6,
                   elem_node 8 (elem_connectivity b) i 7],
                  [elem_node 8 (elem_connectivity b) i 0, elem_node 8 (elem_connectivity b) i 1,
                   elem_node 8 (elem_connectivity b) i 5],
                  [elem_node 8 (elem_connectivity b) i 0, elem_node 8 (elem_connectivity b) i 5,
                   elem_node 8 (elem_connectivity b) i 4],
                  [elem_node 8 (elem_connectivity b) i 1, elem_node 8 (elem_connectivity b) i 2,
                   elem_node 8 (elem_connectivity b) i 6],
                  [elem_node 8 (elem_connectivity b) i 1, elem_node 8 (elem_connectivity b) i 6,
                   elem_node 8 (elem_connectivity b) i 5],
                  [elem_node 8 (elem_connectivity b) i 2, elem_node 8 (elem_connectivity b) i 3,
                   elem_node 8 (elem_connectivity b) i 7],
                  [elem_node 8 (elem_connectivity b) i 2, elem_node 8 (elem_connectivity b) i 7,
                   elem_node 8 (elem_connectivity b) i 6],
                  [elem_node 8 (elem_connectivity b) i 3, elem_node 8 (elem_connectivity b) i 0,
                   elem_node 8 (elem_connectivity b) i 4],
                  [elem_node 8 (elem_connectivity b) i 3, elem_node 8 (elem_connectivity b) i 4,
                   elem_node 8 (elem_connectivity b) i 7]])
                [0..<length (elem_tags b)])) blocks)
           \<and> length faces = 12 * sum_list (map (\<lambda>b. length (elem_tags b)) blocks))
     \<and> map (\<lambda>q. set (hex_faces [v0, v1, v2, v3, v4, v5, v6, v7] ! (2 * q))
                \<union> set (hex_faces [v0, v1, v2, v3, v4, v5, v6, v7] ! (2 * q + 1))) [0, 1, 2, 3, 4, 5]
         = [{v0, v1, v2, v3}, {v4, v5, v6, v7}, {v0, v1, v5, v4},
            {v1, v2, v6, v5}, {v2, v3, v7, v6}, {v3, v0, v4, v7}]"
proof -
  let ?F = "\<lambda>b. concat (map (\<lambda>i.
                 [[elem_node 8 (elem_connectivity b) i 0, elem_node 8 (elem_connectivity b) i 1,
                   elem_node 8 (elem_connectivity b) i 2],
                  [elem_node 8 (elem_connectivity b) i 0, elem_node 8 (elem_connectivity b) i 2,
                   elem_node 8 (elem_connectivity b) i 3],
                  [elem_node 8 (elem_connectivity b) i 4, elem_node 8 (elem_connectivity b) i 5,
                   elem_node 8 (elem_connectivity b) i 6],
                  [elem_node 8 (elem_connectivity b) i 4, elem_node 8 (elem_connectivity b) i 6,
                   elem_node 8 (elem_connectivity b) i 7],
                  [elem_node 8 (elem_connectivity b) i 0, elem_node 8 (elem_connectivity b) i 1,
                   elem_node 8 (elem_connectivity b) i 5],
                  [elem_node 8 (elem_connectivity b) i 0, elem_node 8 (elem_connectivity b) i 5,
                   elem_node 8 (elem_connectivity b) i 4],
                  [elem_node 8 (elem_connectivity b) i 1, elem_node 8 (elem_connectivity b) i 2,
                   elem_node 8 (elem_connectivity b) i 6],
                  [elem_node 8 (elem_connectivity b) i 1, elem_node 8 (elem_connectivity b) i 6,
                   elem_node 8 (elem_connectivity b) i 5],
                  [elem_node 8 (elem_connectivity b) i 2, elem_node 8 (elem_connectivity b) i 3,
                   elem_node 8 (elem_connectivity b) i 7],
                  [elem_node 8 (elem_connectivity b) i 2, elem_node 8 (elem_connectivity b) i 7,
                   elem_node 8 (elem_connectivity b) i 6],
                  [elem_node 8 (elem_connectivity b) i 3, elem_node 8 (elem_connectivity b) i 0,
                   elem_node 8 (elem_connectivity b) i 4],
                  [elem_node 8 (elem_connectivity b) i 3, elem_node 8 (elem_connectivity b) i 4,
                   elem_node 8 (elem_connectivity b) i 7]])
                [0..<length (elem_tags b)])"
  have "classify_blocks [] blocks = Inr ([] @ concat (map ?F blocks))"
  proof (rule classify_blocks_all_ok)
    fix b assume "b \<in> set blocks"
    with names counts show "classify_block b = Inr (?F b)"
      by (intro classify_hexa_block) auto
  qed
  moreover have "length (concat (map ?F blocks)) = 12 * sum_list (map (\<lambda>b. length (elem_tags b)) blocks)"
    by (induction blocks) (simp_all add: length_concat_const)
  moreover have "map (\<lambda>q. set (hex_faces [v0, v1, v2, v3, v4, v5, v6, v7] ! (2 * q))
                \<union> set (hex_faces [v0, v1, v2, v3, v4, v5, v6, v7] ! (2 * q + 1))) [0, 1, 2, 3, 4, 5]
         = [{v0, v1, v2, v3}, {v4, v5, v6, v7}, {v0, v1, v5, v4},
            {v1, v2, v6, v5}, {v2, v3, v7, v6}, {v3, v0, v4, v7}]"
    by (simp add: hex_faces_def insert_commute)
  ultimately show ?thesis by simp
qed

theorem hexa_direct_pass_witness:
  "classify_blocks [] [cube_block] =
     Inr [[1, 2, 3], [1, 3, 4], [5, 6, 7], [5, 7, 8], [1, 2, 6], [1, 6, 5],
          [2, 3, 7], [2, 7, 6], [3, 4, 8], [3, 8, 7], [4, 1, 5], [4, 5, 8]]
   \<and> length [[1, 2, 3], [1, 3, 4], [5, 6, 7], [5, 7, 8], [1, 2, 6], [1, 6, 5],
          [2, 3, 7], [2, 7, 6], [3, 4, 8], [3, 8, 7], [4, 1, 5], [4, 5, 8 :: nat]]
       = 12 * length (elem_tags cube_block)"
  using hexa_direct_pass [of "[cube_block]"]
  by (simp add: cube_block_def hexa_names_def elem_node_def upt_rec)

section \<open>The fallback pass\<close>



lemma toggle_face_keys:
  assumes "distinct (map fst al)"
  shows "distinct (map fst (toggle_face k al))"
    and "set (map fst (toggle_face k al)) =
           (if k \<in> set (map fst al) then set (map fst al) - {k} else insert k (set (map fst al)))"
  using assms by (auto simp: toggle_face_def distinct_map_filter)

lemma toggle_face_values:
  assumes "map snd al = map fst al"
  shows "map snd (toggle_face k al) = map fst (toggle_face k al)"
  using assms by (induction al) (auto simp: toggle_face_def)

lemma fold_toggle_keys:
  assumes "distinct (map fst al)" and "distinct ks"
  shows "distinct (map fst (fold toggle_face ks al))
       \<and> set (map fst (fold toggle_face ks al)) =
           (set (map fst al) - set ks) \<union> (set ks - set (map fst al))"
  using assms
proof (induction ks arbitrary: al)
  case Nil
  then show ?case by simp
next
  case (Cons k ks)
  have d: "distinct (map fst (toggle_face k al))"
    using Cons.prems(1) by (rule toggle_face_keys)
  have s: "set (map fst (toggle_face k al)) =
           (if k \<in> set (map fst al) then set (map fst al) - {k} else insert k (set (map fst al)))"
    using Cons.prems(1) by (rule toggle_face_keys)
  have ks: "distinct ks" "k \<notin> set ks" using Cons.prems(2) by simp_all
  from Cons.IH [OF d ks(1)] s ks(2) show ?case
    by (auto split: if_splits)
qed

lemma fold_toggle_values:
  assumes "map snd al = map fst al"
  shows "map snd (fold toggle_face ks al) = map fst (fold toggle_face ks al)"
  using assms
proof (induction ks arbitrary: al)
  case Nil
  then show ?case by simp
next
  case (Cons k ks)
  have "map snd (toggle_face k al) = map fst (toggle_face k al)"
    using Cons.prems by (rule toggle_face_values)
  then have "map snd (fold toggle_face ks (toggle_face k al)) = map fst (fold toggle_face ks (toggle_face k al))"
    by (rule Cons.IH)
  then show ?case by simp
qed



lemma sort_distinct_eq:
  assumes "distinct xs"
  shows "sort xs = sorted_list_of_set (set xs)"
  using assms by (simp add: sorted_list_of_set_sort_remdups distinct_remdups_id)

lemma sorted_tet_faces_as_sets:
  assumes "distinct [a, b, c, d]"
  shows "sorted_tet_faces [a, b, c, d] =
      [sorted_list_of_set {a, b, c}, sorted_list_of_set {a, b, d},
       sorted_list_of_set {a, c, d}, sorted_list_of_set {b, c, d}]"
proof -
  have "sort [a, b, c] = sorted_list_of_set {a, b, c}"
    using assms sort_distinct_eq [of "[a, b, c]"] by simp
  moreover have "sort [a, b, d] = sorted_list_of_set {a, b, d}"
    using assms sort_distinct_eq [of "[a, b, d]"] by simp
  moreover have "sort [a, c, d] = sorted_list_of_set {a, c, d}"
    using assms sort_distinct_eq [of "[a, c, d]"] by simp
  moreover have "sort [b, c, d] = sorted_list_of_set {b, c, d}"
    using assms sort_distinct_eq [of "[b, c, d]"] by simp
  ultimately show ?thesis
    by (simp add: sorted_tet_faces_def)
qed

lemma sorted_list_of_set_eq_iff:
  assumes "finite A" and "finite B"
  shows "sorted_list_of_set A = sorted_list_of_set B \<longleftrightarrow> A = B"
  using assms by (metis set_sorted_list_of_set)


lemma three_subset_of_four:
  assumes "A \<subseteq> T" and "card A = 3" and "card T = 4"
  shows "\<exists>x\<in>T. A = T - {x}"
proof -
  have fT: "finite T" using assms(3) by (simp add: card_ge_0_finite)
  then have fA: "finite A" using assms(1) by (rule rev_finite_subset)
  have "card (T - A) = card T - card A" using fA assms(1) by (rule card_Diff_subset)
  then have "card (T - A) = 1" using assms by simp
  then obtain x where x: "T - A = {x}" by (auto simp: card_1_singleton_iff)
  then have "x \<in> T" "A = T - {x}" using assms(1) by auto
  then show ?thesis by blast
qed

lemma sorted_list_of_set_neq:
  assumes "finite A" and "finite B" and "A \<noteq> B"
  shows "sorted_list_of_set A \<noteq> sorted_list_of_set B"
  using assms by (simp add: sorted_list_of_set_eq_iff)

lemma sorted_tet_faces_distinct:
  assumes "distinct [a, b, c, d]"
  shows "distinct (sorted_tet_faces [a, b, c, d])"
proof -
  define k1 where "k1 = sorted_list_of_set {a, b, c}"
  define k2 where "k2 = sorted_list_of_set {a, b, d}"
  define k3 where "k3 = sorted_list_of_set {a, c, d}"
  define k4 where "k4 = sorted_list_of_set {b, c, d}"
  have ne: "{a, b, c} \<noteq> {a, b, d}" "{a, b, c} \<noteq> {a, c, d}" "{a, b, c} \<noteq> {b, c, d}"
    "{a, b, d} \<noteq> {a, c, d}" "{a, b, d} \<noteq> {b, c, d}" "{a, c, d} \<noteq> {b, c, d}"
    using assms by auto
  have "k1 \<noteq> k2" unfolding k1_def k2_def by (intro sorted_list_of_set_neq finite.intros ne(1))
  moreover have "k1 \<noteq> k3" unfolding k1_def k3_def by (intro sorted_list_of_set_neq finite.intros ne(2))
  moreover have "k1 \<noteq> k4" unfolding k1_def k4_def by (intro sorted_list_of_set_neq finite.intros ne(3))
  moreover have "k2 \<noteq> k3" unfolding k2_def k3_def by (intro sorted_list_of_set_neq finite.intros ne(4))
  moreover have "k2 \<noteq> k4" unfolding k2_def k4_def by (intro sorted_list_of_set_neq finite.intros ne(5))
  moreover have "k3 \<noteq> k4" unfolding k3_def k4_def by (intro sorted_list_of_set_neq finite.intros ne(6))
  ultimately have "distinct [k1, k2, k3, k4]" by simp
  then show ?thesis
    unfolding sorted_tet_faces_as_sets [OF assms] k1_def k2_def k3_def k4_def .
qed

lemma sorted_tet_faces_set:
  assumes "distinct [a, b, c, d]"
  shows "set (sorted_tet_faces [a, b, c, d]) =
           {sorted_list_of_set A | A. A \<subseteq> {a, b, c, d} \<and> card A = 3}"
proof (intro set_eqI iffI)
  fix f assume "f \<in> set (sorted_tet_faces [a, b, c, d])"
  then consider "f = sorted_list_of_set {a, b, c}" | "f = sorted_list_of_set {a, b, d}"
    | "f = sorted_list_of_set {a, c, d}" | "f = sorted_list_of_set {b, c, d}"
    unfolding sorted_tet_faces_as_sets [OF assms] by auto
  then show "f \<in> {sorted_list_of_set A | A. A \<subseteq> {a, b, c, d} \<and> card A = 3}"
  proof cases
    case 1
    have "{a, b, c} \<subseteq> {a, b, c, d} \<and> card {a, b, c} = 3" using assms by simp
    with 1 show ?thesis by blast
  next
    case 2
    have "{a, b, d} \<subseteq> {a, b, c, d} \<and> card {a, b, d} = 3" using assms by simp
    with 2 show ?thesis by blast
  next
    case 3
    have "{a, c, d} \<subseteq> {a, b, c, d} \<and> card {a, c, d} = 3" using assms by simp
    with 3 show ?thesis by blast
  next
    case 4
    have "{b, c, d} \<subseteq> {a, b, c, d} \<and> card {b, c, d} = 3" using assms by simp
    with 4 show ?thesis by blast
  qed
next
  fix f assume "f \<in> {sorted_list_of_set A | A. A \<subseteq> {a, b, c, d} \<and> card A = 3}"
  then obtain A where f: "f = sorted_list_of_set A" and A: "A \<subseteq> {a, b, c, d}" "card A = 3"
    by blast
  have c4: "card {a, b, c, d} = 4" using assms by simp
  from three_subset_of_four [OF A c4] obtain x where x: "x \<in> {a, b, c, d}" "A = {a, b, c, d} - {x}"
    by blast
  from x(1) consider "x = a" | "x = b" | "x = c" | "x = d" by blast
  then have "A = {b, c, d} \<or> A = {a, c, d} \<or> A = {a, b, d} \<or> A = {a, b, c}"
  proof cases
    case 1 then have "A = {b, c, d}" using assms x(2) by auto then show ?thesis by simp
  next
    case 2 then have "A = {a, c, d}" using assms x(2) by auto then show ?thesis by simp
  next
    case 3 then have "A = {a, b, d}" using assms x(2) by auto then show ?thesis by simp
  next
    case 4 then have "A = {a, b, c}" using assms x(2) by auto then show ?thesis by simp
  qed
  then show "f \<in> set (sorted_tet_faces [a, b, c, d])"
    unfolding sorted_tet_faces_as_sets [OF assms] f by auto
qed



lemma length4_obtain:
  assumes "length t = 4"
  obtains a b c d where "t = [a, b, c, d]"
  using assms by (auto simp: length_Suc_conv numeral_eq_Suc)

lemma sorted_tet_faces_set_gen:
  assumes "length t = 4" and "distinct t"
  shows "set (sorted_tet_faces t) = {sorted_list_of_set A | A. A \<subseteq> set t \<and> card A = 3}"
    and "distinct (sorted_tet_faces t)"
    and "length (sorted_tet_faces t) = 4"
proof -
  from assms(1) obtain a b c d where t: "t = [a, b, c, d]" by (rule length4_obtain)
  have d: "distinct [a, b, c, d]" using assms(2) t by simp
  have s: "set t = {a, b, c, d}" using t by simp
  show "set (sorted_tet_faces t) = {sorted_list_of_set A | A. A \<subseteq> set t \<and> card A = 3}"
    unfolding s unfolding t by (rule sorted_tet_faces_set [OF d])
  show "distinct (sorted_tet_faces t)" unfolding t by (rule sorted_tet_faces_distinct [OF d])
  show "length (sorted_tet_faces t) = 4" by (simp add: sorted_tet_faces_def)
qed

lemma shared_face:
  assumes "length t1 = 4" "distinct t1" "length t2 = 4" "distinct t2"
    and "card (set t1 \<inter> set t2) = 3"
  shows "set (sorted_tet_faces t1) \<inter> set (sorted_tet_faces t2) =
           {sorted_list_of_set (set t1 \<inter> set t2)}"
proof -
  let ?S = "set t1 \<inter> set t2"
  have F1: "set (sorted_tet_faces t1) = {sorted_list_of_set A | A. A \<subseteq> set t1 \<and> card A = 3}"
    using assms(1,2) by (rule sorted_tet_faces_set_gen)
  have F2: "set (sorted_tet_faces t2) = {sorted_list_of_set A | A. A \<subseteq> set t2 \<and> card A = 3}"
    using assms(3,4) by (rule sorted_tet_faces_set_gen)
  show ?thesis
  proof (intro set_eqI iffI)
    fix f assume "f \<in> set (sorted_tet_faces t1) \<inter> set (sorted_tet_faces t2)"
    then obtain A B where A: "f = sorted_list_of_set A" "A \<subseteq> set t1" "card A = 3"
      and B: "f = sorted_list_of_set B" "B \<subseteq> set t2" "card B = 3"
      unfolding F1 F2 by blast
    have fA: "finite A" using A(2) by (rule finite_subset) simp
    have fB: "finite B" using B(2) by (rule finite_subset) simp
    have "A = B" using A(1) B(1) fA fB by (simp add: sorted_list_of_set_eq_iff)
    then have "A \<subseteq> ?S" using A(2) B(2) by blast
    moreover have "card ?S \<le> card A" using A(3) assms(5) by simp
    ultimately have "A = ?S" by (intro card_seteq) simp_all
    then show "f \<in> {sorted_list_of_set ?S}" using A(1) by simp
  next
    fix f assume "f \<in> {sorted_list_of_set ?S}"
    then have f: "f = sorted_list_of_set ?S" by simp
    have "f \<in> set (sorted_tet_faces t1)" unfolding F1 using f assms(5) by blast
    moreover have "f \<in> set (sorted_tet_faces t2)" unfolding F2 using f assms(5) by blast
    ultimately show "f \<in> set (sorted_tet_faces t1) \<inter> set (sorted_tet_faces t2)" by simp
  qed
qed

lemma sym_diff_card:
  assumes "distinct xs" "distinct ys" "set xs \<inter> set ys = {s}"
  shows "card ((set xs - set ys) \<union> (set ys - set xs)) = length xs + length ys - 2"
proof -
  have s: "s \<in> set xs" "s \<in> set ys" using assms(3) by auto
  have "set xs - set ys = set xs - {s}" "set ys - set xs = set ys - {s}"
    using assms(3) by auto
  moreover have "(set xs - {s}) \<inter> (set ys - {s}) = {}" using assms(3) by auto
  ultimately have "card ((set xs - set ys) \<union> (set ys - set xs)) = card (set xs - {s}) + card (set ys - {s})"
    by (simp add: card_Un_disjoint)
  also have "\<dots> = (length xs - 1) + (length ys - 1)"
    using s assms(1,2) by (simp add: distinct_card)
  also have "\<dots> = length xs + length ys - 2"
    using s by (cases xs; cases ys) auto
  finally show ?thesis .
qed

lemma reshape_two_rows:
  assumes "length t1 = 4" and "length t2 = 4"
  shows "reshape 4 (t1 @ t2) = Inr [t1, t2]"
proof -
  have "length (t1 @ t2) = 4 * 2" using assms by simp
  then have "reshape 4 (t1 @ t2) = Inr (map (\<lambda>i. take 4 (drop (i * 4) (t1 @ t2))) [0..<2])"
    by (rule reshape_rows) simp
  also have "[0..<2] = [0, Suc 0]" by (simp add: upt_rec)
  finally show ?thesis using assms by simp
qed

text \<open>
  C1 (as amended). The fallback pass over one tetrahedral element type holding
  two tetrahedra, each on four different nodes, with exactly three nodes in
  common, keeps exactly 6 faces: every face of exactly one of the two tetrahedra,
  each once, and not the face on the three common nodes, which is a face of both.
\<close>

theorem fallback_two_tets_sharing_a_face:
  assumes name: "str_in ''4-node tetrahedron'' (elem_name b) \<or> str_in ''Tetrahedron'' (elem_name b)"
    and conn: "elem_connectivity b = t1 @ t2"
    and t1: "length t1 = 4" "distinct t1"
    and t2: "length t2 = 4" "distinct t2"
    and shared: "card (set t1 \<inter> set t2) = 3"
  shows "\<exists>faces. fallback_pass [b] = Inr faces
           \<and> length faces = 6
           \<and> distinct faces
           \<and> set faces = (set (sorted_tet_faces t1) \<union> set (sorted_tet_faces t2))
                          - (set (sorted_tet_faces t1) \<inter> set (sorted_tet_faces t2))
           \<and> set (sorted_tet_faces t1) \<inter> set (sorted_tet_faces t2)
               = {sorted_list_of_set (set t1 \<inter> set t2)}"
proof -
  let ?F1 = "sorted_tet_faces t1" and ?F2 = "sorted_tet_faces t2"
  define al1 where "al1 = fold toggle_face ?F1 []"
  define al2 where "al2 = fold toggle_face ?F2 al1"
  have F1: "distinct ?F1" "length ?F1 = 4" using t1 by (rule sorted_tet_faces_set_gen)+
  have F2: "distinct ?F2" "length ?F2 = 4" using t2 by (rule sorted_tet_faces_set_gen)+
  have inter: "set ?F1 \<inter> set ?F2 = {sorted_list_of_set (set t1 \<inter> set t2)}"
    using t1 t2 shared by (rule shared_face)
  have k1': "distinct (map fst al1)" "set (map fst al1) = set ?F1"
    using fold_toggle_keys [of "[]" ?F1] F1(1) by (simp_all add: al1_def)
  have k2: "distinct (map fst al2) \<and> set (map fst al2) = (set (map fst al1) - set ?F2) \<union> (set ?F2 - set (map fst al1))"
    unfolding al2_def using k1'(1) F2(1) by (rule fold_toggle_keys)
  have v1: "map snd al1 = map fst al1" unfolding al1_def by (rule fold_toggle_values) simp
  have v2: "map snd al2 = map fst al2" unfolding al2_def using v1 by (rule fold_toggle_values)
  have run: "fallback_pass [b] = Inr (map snd al2)"
    using name conn reshape_two_rows [OF t1(1) t2(1)]
    by (simp add: fallback_pass_def fallback_block_def fallback_tet_def al1_def al2_def)
  have d: "distinct (map snd al2)" unfolding v2 using k2 by (rule conjunct1)
  have "set (map fst al2) = (set ?F1 - set ?F2) \<union> (set ?F2 - set ?F1)"
    using k2 unfolding k1'(2) by (rule conjunct2)
  then have s: "set (map snd al2) = (set ?F1 - set ?F2) \<union> (set ?F2 - set ?F1)"
    unfolding v2 .
  have "length (map snd al2) = card (set (map snd al2))" using d by (simp only: distinct_card)
  also have "\<dots> = length ?F1 + length ?F2 - 2"
    unfolding s using F1(1) F2(1) inter by (rule sym_diff_card)
  finally have l: "length (map snd al2) = 6" using F1(2) F2(2) by simp
  have s': "set (map snd al2) = (set ?F1 \<union> set ?F2) - (set ?F1 \<inter> set ?F2)"
    unfolding s by blast
  show ?thesis using run l d s' inter by blast
qed

theorem fallback_two_tets_sharing_a_face_witness:
  "fallback_pass [two_tets_block] = Inr [[1, 2, 3], [1, 2, 4], [1, 3, 4], [2, 3, 5], [2, 4, 5], [3, 4, 5]]
   \<and> length [[1, 2, 3], [1, 2, 4], [1, 3, 4], [2, 3, 5], [2, 4, 5], [3, 4, 5 :: nat]] = 6
   \<and> [2, 3, 4] \<notin> set [[1, 2, 3], [1, 2, 4], [1, 3, 4], [2, 3, 5], [2, 4, 5], [3, 4, 5 :: nat]]"
proof -
  have "\<exists>faces. fallback_pass [two_tets_block] = Inr faces \<and> length faces = 6 \<and> distinct faces
           \<and> set faces = (set (sorted_tet_faces [1, 2, 3, 4]) \<union> set (sorted_tet_faces [2, 3, 4, 5]))
                          - (set (sorted_tet_faces [1, 2, 3, 4]) \<inter> set (sorted_tet_faces [2, 3, 4, 5]))
           \<and> set (sorted_tet_faces [1, 2, 3, 4]) \<inter> set (sorted_tet_faces [2, 3, 4, 5])
               = {sorted_list_of_set (set [1, 2, 3, 4] \<inter> set [2, 3, 4, 5])}"
  proof (rule fallback_two_tets_sharing_a_face)
    show "str_in ''4-node tetrahedron'' (elem_name two_tets_block)
          \<or> str_in ''Tetrahedron'' (elem_name two_tets_block)"
      by (simp add: two_tets_block_def)
    show "elem_connectivity two_tets_block = [1, 2, 3, 4] @ [2, 3, 4, 5]"
      by (simp add: two_tets_block_def)
    have "set [1, 2, 3, 4 :: nat] \<inter> set [2, 3, 4, 5] = {2, 3, 4}" by auto
    then show "card (set [1, 2, 3, 4 :: nat] \<inter> set [2, 3, 4, 5]) = 3" by simp
  qed simp_all
  moreover have "fallback_pass [two_tets_block] =
      Inr [[1, 2, 3], [1, 2, 4], [1, 3, 4], [2, 3, 5], [2, 4, 5], [3, 4, 5]]"
    by (simp add: fallback_pass_def fallback_block_def two_tets_block_def reshape_def upt_rec
        fallback_tet_def sorted_tet_faces_def toggle_face_def)
  ultimately show ?thesis by simp
qed

text \<open>
  C1 as stated fails on the two tetrahedra 1-2-3-4 and 2-3-4-5: the direct pass
  already emits 8 faces, so the fallback pass is not run, and the surface has 8
  faces with the shared face 2-3-4 twice; the fallback pass on its own would keep
  6 faces. Neither number is 7.
\<close>

theorem two_tets_not_seven_faces:
  "classify_blocks [] [two_tets_block] =
     Inr [[1, 2, 3], [1, 2, 4], [1, 3, 4], [2, 3, 4], [2, 3, 4], [2, 3, 5], [2, 4, 5], [3, 4, 5]]
   \<and> derive_surface [two_tets_block] =
     Inr [[1, 2, 3], [1, 2, 4], [1, 3, 4], [2, 3, 4], [2, 3, 4], [2, 3, 5], [2, 4, 5], [3, 4, 5]]
   \<and> length [[1, 2, 3], [1, 2, 4], [1, 3, 4], [2, 3, 4], [2, 3, 4], [2, 3, 5], [2, 4, 5], [3, 4, 5 :: nat]] \<noteq> 7
   \<and> fallback_pass [two_tets_block] =
     Inr [[1, 2, 3], [1, 2, 4], [1, 3, 4], [2, 3, 5], [2, 4, 5], [3, 4, 5]]
   \<and> length [[1, 2, 3], [1, 2, 4], [1, 3, 4], [2, 3, 5], [2, 4, 5], [3, 4, 5 :: nat]] \<noteq> 7"
proof -
  have c: "classify_blocks [] [two_tets_block] =
     Inr [[1, 2, 3], [1, 2, 4], [1, 3, 4], [2, 3, 4], [2, 3, 4], [2, 3, 5], [2, 4, 5], [3, 4, 5]]"
    by (simp add: two_tets_block_def classify_block_def tetra_names_def extend_rows_def
        reshape_def tet_faces_def upt_rec)
  have f: "fallback_pass [two_tets_block] =
      Inr [[1, 2, 3], [1, 2, 4], [1, 3, 4], [2, 3, 5], [2, 4, 5], [3, 4, 5]]"
    by (simp add: fallback_pass_def fallback_block_def two_tets_block_def reshape_def upt_rec
        fallback_tet_def sorted_tet_faces_def toggle_face_def)
  have d: "derive_surface [two_tets_block] =
     Inr [[1, 2, 3], [1, 2, 4], [1, 3, 4], [2, 3, 4], [2, 3, 4], [2, 3, 5], [2, 4, 5], [3, 4, 5]]"
    unfolding derive_surface_def c by simp
  show ?thesis using c d f by simp
qed

section \<open>The node map\<close>


lemma enumerate_into_lookup:
  "enumerate_into i tags m t = Some j \<Longrightarrow>
     (t \<notin> set tags \<and> m t = Some j) \<or> (i \<le> j \<and> j < i + length tags \<and> tags ! (j - i) = t)"
proof (induction tags arbitrary: i m)
  case Nil
  then show ?case by simp
next
  case (Cons tag rest)
  from Cons.prems have "enumerate_into (Suc i) rest (m(tag \<mapsto> i)) t = Some j" by simp
  from Cons.IH [OF this] show ?case
  proof
    assume a: "t \<notin> set rest \<and> (m(tag \<mapsto> i)) t = Some j"
    show ?thesis
    proof (cases "t = tag")
      case True
      with a have "j = i" by simp
      with True show ?thesis by simp
    next
      case False
      with a show ?thesis by simp
    qed
  next
    assume a: "Suc i \<le> j \<and> j < Suc i + length rest \<and> rest ! (j - Suc i) = t"
    then have "j - i = Suc (j - Suc i)" by arith
    with a show ?thesis by simp
  qed
qed

lemma enumerate_into_absent:
  "t \<notin> set tags \<Longrightarrow> enumerate_into i tags m t = m t"
  by (induction tags arbitrary: i m) auto

lemma enumerate_into_distinct:
  "distinct tags \<Longrightarrow> k < length tags \<Longrightarrow> enumerate_into i tags m (tags ! k) = Some (i + k)"
proof (induction tags arbitrary: i m k)
  case Nil
  then show ?case by simp
next
  case (Cons tag rest)
  show ?case
  proof (cases k)
    case 0
    then show ?thesis using Cons.prems by (simp add: enumerate_into_absent)
  next
    case (Suc k')
    have "enumerate_into (Suc i) rest (m(tag \<mapsto> i)) (rest ! k') = Some (Suc i + k')"
      using Cons.prems Suc by (intro Cons.IH) simp_all
    then show ?thesis using Suc by simp
  qed
qed

lemma build_node_map_Some:
  assumes "build_node_map tags t = Some j"
  shows "j < length tags \<and> tags ! j = t"
  using enumerate_into_lookup [of 0 tags Map.empty t j] assms
  by (simp add: build_node_map_def)

lemma build_node_map_absent:
  "t \<notin> set tags \<Longrightarrow> build_node_map tags t = None"
  by (simp add: build_node_map_def enumerate_into_absent)

lemma build_node_map_distinct:
  "distinct tags \<Longrightarrow> k < length tags \<Longrightarrow> build_node_map tags (tags ! k) = Some k"
  using enumerate_into_distinct [of tags k 0 Map.empty] by (simp add: build_node_map_def)

section \<open>Meshes of hexahedra only\<close>

lemma classify_hexa_blocks_count:
  assumes names: "\<forall>b\<in>set blocks. elem_name b \<in> set hexa_names"
    and counts: "\<forall>b\<in>set blocks. length (elem_connectivity b) = 8 * length (elem_tags b)"
  shows "\<exists>faces. classify_blocks [] blocks = Inr faces
           \<and> length faces = 12 * sum_list (map (\<lambda>b. length (elem_tags b)) blocks)"
proof -
  have "\<exists>F. (\<forall>b\<in>set blocks. classify_block b = Inr (F b) \<and> length (F b) = 12 * length (elem_tags b))"
  proof (intro exI ballI conjI)
    fix b assume b: "b \<in> set blocks"
    from b names counts show "classify_block b = Inr (concat (map (\<lambda>i.
           [[elem_node 8 (elem_connectivity b) i 0, elem_node 8 (elem_connectivity b) i 1,
             elem_node 8 (elem_connectivity b) i 2],
            [elem_node 8 (elem_connectivity b) i 0, elem_node 8 (elem_connectivity b) i 2,
             elem_node 8 (elem_connectivity b) i 3],
            [elem_node 8 (elem_connectivity b) i 4, elem_node 8 (elem_connectivity b) i 5,
             elem_node 8 (elem_connectivity b) i 6],
            [elem_node 8 (elem_connectivity b) i 4, elem_node 8 (elem_connectivity b) i 6,
             elem_node 8 (elem_connectivity b) i 7],
            [elem_node 8 (elem_connectivity b) i 0, elem_node 8 (elem_connectivity b) i 1,
             elem_node 8 (elem_connectivity b) i 5],
            [elem_node 8 (elem_connectivity b) i 0, elem_node 8 (elem_connectivity b) i 5,
             elem_node 8 (elem_connectivity b) i 4],
            [elem_node 8 (elem_connectivity b) i 1, elem_node 8 (elem_connectivity b) i 2,
             elem_node 8 (elem_connectivity b) i 6],
            [elem_node 8 (elem_connectivity b) i 1, elem_node 8 (elem_connectivity b) i 6,
             elem_node 8 (elem_connectivity b) i 5],
            [elem_node 8 (elem_connectivity b) i 2, elem_node 8 (elem_connectivity b) i 3,
             elem_node 8 (elem_connectivity b) i 7],
            [elem_node 8 (elem_connectivity b) i 2, elem_node 8 (elem_connectivity b) i 7,
             elem_node 8 (elem_connectivity b) i 6],
            [elem_node 8 (elem_connectivity b) i 3, elem_node 8 (elem_connectivity b) i 0,
             elem_node 8 (elem_connectivity b) i 4],
            [elem_node 8 (elem_connectivity b) i 3, elem_node 8 (elem_connectivity b) i 4,
             elem_node 8 (elem_connectivity b) i 7]])
          [0..<length (elem_tags b)]))"
      by (intro classify_hexa_block) auto
  qed (simp add: length_concat_const)
  then obtain F where F: "\<And>b. b \<in> set blocks \<Longrightarrow> classify_block b = Inr (F b)"
    and lF: "\<And>b. b \<in> set blocks \<Longrightarrow> length (F b) = 12 * length (elem_tags b)"
    by blast
  have "classify_blocks [] blocks = Inr ([] @ concat (map F blocks))"
    using F by (rule classify_blocks_all_ok)
  moreover have "length (concat (map F blocks)) = 12 * sum_list (map (\<lambda>b. length (elem_tags b)) blocks)"
    using lF by (induction blocks) (simp_all add: length_concat)
  ultimately show ?thesis by simp
qed

lemma hexa_name_not_in_fallback:
  assumes "name \<in> set hexa_names"
  shows "\<not> (str_in ''4-node tetrahedron'' name \<or> str_in ''Tetrahedron'' name)"
proof -
  from assms consider "name = ''8-node hexahedron''" | "name = ''Hexahedron''"
    | "name = ''Hexahedron 8''" | "name = ''hexahedron''"
    by (auto simp: hexa_names_def)
  then show ?thesis by cases simp_all
qed

lemma fallback_blocks_hexa:
  assumes "\<forall>b\<in>set blocks. elem_name b \<in> set hexa_names"
  shows "fallback_blocks all_faces blocks = Inr all_faces"
  using assms
proof (induction blocks)
  case Nil
  show ?case by simp
next
  case (Cons b bs)
  have "fallback_block b all_faces = Inr all_faces"
    using Cons.prems hexa_name_not_in_fallback [of "elem_name b"]
    by (simp add: fallback_block_def)
  then show ?case using Cons by simp
qed

lemma reshape_error:
  "reshape k xs = Inl e \<Longrightarrow> e = ReshapeError"
  by (simp add: reshape_def split: if_splits)

lemma derive_surface_not_no_surface:
  assumes "derive_surface (element_blocks (gmsh_view env)) = Inr faces"
  shows "fst (convert_to_stl_with_gmsh env fs) \<noteq> Inl NoSurfaceElements"
  using assms
  by (auto simp: convert_to_stl_with_gmsh_def try_body_def dest: reshape_error
      split: sum.splits temp_write_outcome.splits prod.splits if_splits)

text \<open>
  C2 (as amended). For a mesh of hexahedral element types only (eight connectivity
  entries per element, at least one element) the direct pass derives twelve faces per
  hexahedron, so the face set is not empty, the fallback pass is not run and the
  conversion does not fail with "no surface elements"; the fallback pass on its
  own derives no face from hexahedral elements.
\<close>

theorem hexa_only_surface:
  assumes names: "\<forall>b\<in>set (element_blocks (gmsh_view env)). elem_name b \<in> set hexa_names"
    and counts: "\<forall>b\<in>set (element_blocks (gmsh_view env)).
                   length (elem_connectivity b) = 8 * length (elem_tags b)"
    and some: "0 < sum_list (map (\<lambda>b. length (elem_tags b)) (element_blocks (gmsh_view env)))"
  shows "(\<exists>faces. derive_surface (element_blocks (gmsh_view env)) = Inr faces
            \<and> classify_blocks [] (element_blocks (gmsh_view env)) = Inr faces
            \<and> faces \<noteq> []
            \<and> length faces
                = 12 * sum_list (map (\<lambda>b. length (elem_tags b)) (element_blocks (gmsh_view env))))
       \<and> fallback_pass (element_blocks (gmsh_view env)) = Inr []
       \<and> fst (convert_to_stl_with_gmsh env fs) \<noteq> Inl NoSurfaceElements"
proof -
  let ?blocks = "element_blocks (gmsh_view env)"
  from classify_hexa_blocks_count [OF names counts] obtain faces
    where c: "classify_blocks [] ?blocks = Inr faces"
      and l: "length faces = 12 * sum_list (map (\<lambda>b. length (elem_tags b)) ?blocks)"
    by blast
  have ne: "faces \<noteq> []"
  proof
    assume "faces = []"
    then have "12 * sum_list (map (\<lambda>b. length (elem_tags b)) ?blocks) = 0" using l by simp
    with some show False by simp
  qed
  have d: "derive_surface ?blocks = Inr faces"
    using c ne by (simp add: derive_surface_def)
  have f: "fallback_pass ?blocks = Inr []"
    using fallback_blocks_hexa [OF names, of "[]"] by (simp add: fallback_pass_def)
  from d have "fst (convert_to_stl_with_gmsh env fs) \<noteq> Inl NoSurfaceElements"
    by (rule derive_surface_not_no_surface)
  with c d l ne f show ?thesis by blast
qed

lemma all_calls_succeed_simps:
  "meshio_read_ok (all_calls_succeed view) = True"
  "temp_write (all_calls_succeed view) = TempWritten"
  "gmsh_initialize_ok (all_calls_succeed view) = True"
  "gmsh_open_ok (all_calls_succeed view) = True"
  "gmsh_view (all_calls_succeed view) = view"
  "stl_write_ok (all_calls_succeed view) = True"
  "gmsh_finalize_ok (all_calls_succeed view) = True"
  by (simp_all add: all_calls_succeed_def)

lemma try_body_success:
  assumes "gmsh_open_ok env"
    and "reshape 3 (node_coords (gmsh_view env)) = Inr coords"
    and "derive_surface (element_blocks (gmsh_view env)) = Inr surface_elements"
    and "node_tags (gmsh_view env) \<noteq> []"
    and "remap_faces (build_node_map (node_tags (gmsh_view env))) surface_elements ([], [])
           = (triangles, warnings)"
    and "triangles \<noteq> []"
    and "stl_write_ok env"
  shows "try_body env fs =
           (Inr warnings, fs\<lparr>output_file := Some \<lparr>points = coords, triangle_cells = triangles\<rparr>\<rparr>)"
  using assms by (simp add: try_body_def)

lemma convert_all_ok:
  assumes "meshio_read_ok env" and "temp_write env = TempWritten"
    and "gmsh_initialize_ok env" and "gmsh_finalize_ok env"
    and "try_body env (fs\<lparr>temp_exists := True\<rparr>) = (r, fs')"
  shows "convert_to_stl_with_gmsh env fs = (r, fs'\<lparr>temp_exists := False\<rparr>)"
  using assms by (simp add: convert_to_stl_with_gmsh_def)

lemma cube_try_body:
  "try_body (all_calls_succeed cube_model) fs =
     (Inr [],
      fs\<lparr>output_file := Some
         \<lparr>points = [[0, 0, 0], [1, 0, 0], [1, 1, 0], [0, 1, 0],
                    [0, 0, 1], [1, 0, 1], [1, 1, 1], [0, 1, 1]],
          triangle_cells =
            [[0, 1, 2], [0, 2, 3], [4, 5, 6], [4, 6, 7], [0, 1, 5], [0, 5, 4],
             [1, 2, 6], [1, 6, 5], [2, 3, 7], [2, 7, 6], [3, 0, 4], [3, 4, 7]]\<rparr>\<rparr>)"
proof -
  have c: "classify_blocks [] [cube_block] =
     Inr [[1, 2, 3], [1, 3, 4], [5, 6, 7], [5, 7, 8], [1, 2, 6], [1, 6, 5],
          [2, 3, 7], [2, 7, 6], [3, 4, 8], [3, 8, 7], [4, 1, 5], [4, 5, 8]]"
    by (simp add: cube_block_def classify_block_def tetra_names_def hexa_names_def
        extend_rows_def reshape_def hex_faces_def upt_rec)
  have d: "derive_surface [cube_block] =
     Inr [[1, 2, 3], [1, 3, 4], [5, 6, 7], [5, 7, 8], [1, 2, 6], [1, 6, 5],
          [2, 3, 7], [2, 7, 6], [3, 4, 8], [3, 8, 7], [4, 1, 5], [4, 5, 8]]"
    unfolding derive_surface_def c by simp
  have r: "reshape 3 [0, 0, 0,  1, 0, 0,  1, 1, 0,  0, 1, 0,
                     0, 0, 1,  1, 0, 1,  1, 1, 1,  0, 1, 1 :: int] =
      Inr [[0, 0, 0], [1, 0, 0], [1, 1, 0], [0, 1, 0],
           [0, 0, 1], [1, 0, 1], [1, 1, 1], [0, 1, 1]]"
    by (simp add: reshape_def upt_rec)
  have m: "remap_faces (build_node_map [1, 2, 3, 4, 5, 6, 7, 8])
       [[1, 2, 3], [1, 3, 4], [5, 6, 7], [5, 7, 8], [1, 2, 6], [1, 6, 5],
          [2, 3, 7], [2, 7, 6], [3, 4, 8], [3, 8, 7], [4, 1, 5], [4, 5, 8]] ([], []) =
      ([[0, 1, 2], [0, 2, 3], [4, 5, 6], [4, 6, 7], [0, 1, 5], [0, 5, 4],
             [1, 2, 6], [1, 6, 5], [2, 3, 7], [2, 7, 6], [3, 0, 4], [3, 4, 7]], [])"
    by (simp add: build_node_map_def)
  have v: "node_tags cube_model = [1, 2, 3, 4, 5, 6, 7, 8]"
    "node_coords cube_model = [0, 0, 0,  1, 0, 0,  1, 1, 0,  0, 1, 0,
                     0, 0, 1,  1, 0, 1,  1, 1, 1,  0, 1, 1]"
    "element_blocks cube_model = [cube_block]"
    by (simp_all add: cube_model_def)
  show ?thesis
  proof (rule try_body_success)
    show "gmsh_open_ok (all_calls_succeed cube_model)"
      and "stl_write_ok (all_calls_succeed cube_model)"
      by (simp_all add: all_calls_succeed_simps)
    show "reshape 3 (node_coords (gmsh_view (all_calls_succeed cube_model))) =
        Inr [[0, 0, 0], [1, 0, 0], [1, 1, 0], [0, 1, 0],
             [0, 0, 1], [1, 0, 1], [1, 1, 1], [0, 1, 1]]"
      unfolding all_calls_succeed_simps v by (rule r)
    show "derive_surface (element_blocks (gmsh_view (all_calls_succeed cube_model))) =
        Inr [[1, 2, 3], [1, 3, 4], [5, 6, 7], [5, 7, 8], [1, 2, 6], [1, 6, 5],
             [2, 3, 7], [2, 7, 6], [3, 4, 8], [3, 8, 7], [4, 1, 5], [4, 5, 8]]"
      unfolding all_calls_succeed_simps v by (rule d)
    show "node_tags (gmsh_view (all_calls_succeed cube_model)) \<noteq> []"
      unfolding all_calls_succeed_simps v by simp
    show "remap_faces (build_node_map (node_tags (gmsh_view (all_calls_succeed cube_model))))
        [[1, 2, 3], [1, 3, 4], [5, 6, 7], [5, 7, 8], [1, 2, 6], [1, 6, 5],
         [2, 3, 7], [2, 7, 6], [3, 4, 8], [3, 8, 7], [4, 1, 5], [4, 5, 8]] ([], []) =
      ([[0, 1, 2], [0, 2, 3], [4, 5, 6], [4, 6, 7], [0, 1, 5], [0, 5, 4],
        [1, 2, 6], [1, 6, 5], [2, 3, 7], [2, 7, 6], [3, 0, 4], [3, 4, 7]], [])"
      unfolding all_calls_succeed_simps v by (rule m)
  qed simp
qed

lemma cube_conversion:
  "convert_to_stl_with_gmsh (all_calls_succeed cube_model) no_files =
     (Inr [],
      \<lparr>temp_exists = False,
       output_file = Some
         \<lparr>points = [[0, 0, 0], [1, 0, 0], [1, 1, 0], [0, 1, 0],
                    [0, 0, 1], [1, 0, 1], [1, 1, 1], [0, 1, 1]],
          triangle_cells =
            [[0, 1, 2], [0, 2, 3], [4, 5, 6], [4, 6, 7], [0, 1, 5], [0, 5, 4],
             [1, 2, 6], [1, 6, 5], [2, 3, 7], [2, 7, 6], [3, 0, 4], [3, 4, 7]]\<rparr>\<rparr>)"
proof -
  have "convert_to_stl_with_gmsh (all_calls_succeed cube_model) no_files =
     (Inr [],
      no_files\<lparr>temp_exists := True\<rparr>\<lparr>output_file := Some
         \<lparr>points = [[0, 0, 0], [1, 0, 0], [1, 1, 0], [0, 1, 0],
                    [0, 0, 1], [1, 0, 1], [1, 1, 1], [0, 1, 1]],
          triangle_cells =
            [[0, 1, 2], [0, 2, 3], [4, 5, 6], [4, 6, 7], [0, 1, 5], [0, 5, 4],
             [1, 2, 6], [1, 6, 5], [2, 3, 7], [2, 7, 6], [3, 0, 4], [3, 4, 7]]\<rparr>\<rparr>
        \<lparr>temp_exists := False\<rparr>)"
    by (rule convert_all_ok [OF _ _ _ _ cube_try_body]) (simp_all add: all_calls_succeed_simps)
  then show ?thesis by (simp add: no_files_def)
qed

theorem hexa_only_surface_witness:
  "derive_surface [cube_block] =
     Inr [[1, 2, 3], [1, 3, 4], [5, 6, 7], [5, 7, 8], [1, 2, 6], [1, 6, 5],
          [2, 3, 7], [2, 7, 6], [3, 4, 8], [3, 8, 7], [4, 1, 5], [4, 5, 8]]
   \<and> fallback_pass [cube_block] = Inr []
   \<and> fst (convert_to_stl_with_gmsh (all_calls_succeed cube_model) (no_files :: int files))
       \<noteq> Inl NoSurfaceElements"
proof -
  have "classify_blocks [] [cube_block] =
     Inr [[1, 2, 3], [1, 3, 4], [5, 6, 7], [5, 7, 8], [1, 2, 6], [1, 6, 5],
          [2, 3, 7], [2, 7, 6], [3, 4, 8], [3, 8, 7], [4, 1, 5], [4, 5, 8]]"
    by (simp add: cube_block_def classify_block_def tetra_names_def hexa_names_def
        extend_rows_def reshape_def hex_faces_def upt_rec)
  then show ?thesis
    using hexa_only_surface [of "all_calls_succeed cube_model" no_files]
    by (simp add: all_calls_succeed_def cube_model_def cube_block_def hexa_names_def)
qed

text \<open>
  C2 as stated fails on a single hexahedron: twelve faces are derived and the
  conversion succeeds, writing eight points and twelve triangles.
\<close>

theorem cube_converts:
  "derive_surface [cube_block] =
     Inr [[1, 2, 3], [1, 3, 4], [5, 6, 7], [5, 7, 8], [1, 2, 6], [1, 6, 5],
          [2, 3, 7], [2, 7, 6], [3, 4, 8], [3, 8, 7], [4, 1, 5], [4, 5, 8]]
   \<and> fst (convert_to_stl_with_gmsh (all_calls_succeed cube_model) no_files) = Inr []
   \<and> map_option (\<lambda>m. length (triangle_cells m))
        (output_file (snd (convert_to_stl_with_gmsh (all_calls_succeed cube_model) no_files)))
       = Some 12"
proof -
  have c: "classify_blocks [] [cube_block] =
     Inr [[1, 2, 3], [1, 3, 4], [5, 6, 7], [5, 7, 8], [1, 2, 6], [1, 6, 5],
          [2, 3, 7], [2, 7, 6], [3, 4, 8], [3, 8, 7], [4, 1, 5], [4, 5, 8]]"
    by (simp add: cube_block_def classify_block_def tetra_names_def hexa_names_def
        extend_rows_def reshape_def hex_faces_def upt_rec)
  have "derive_surface [cube_block] =
     Inr [[1, 2, 3], [1, 3, 4], [5, 6, 7], [5, 7, 8], [1, 2, 6], [1, 6, 5],
          [2, 3, 7], [2, 7, 6], [3, 4, 8], [3, 8, 7], [4, 1, 5], [4, 5, 8]]"
    unfolding derive_surface_def c by simp
  then show ?thesis by (simp add: cube_conversion)
qed

section \<open>Effects of the body on the files\<close>

lemma try_body_temp:
  "temp_exists (snd (try_body env fs)) = temp_exists fs"
  by (simp add: try_body_def split: sum.splits prod.splits)

lemma try_body_output_on_error:
  assumes "fst (try_body env fs) = Inl e"
  shows "snd (try_body env fs) = fs"
  using assms by (simp add: try_body_def split: sum.splits prod.splits if_splits)

lemma convert_output_on_error:
  assumes "fst (convert_to_stl_with_gmsh env fs) = Inl e" and "e \<noteq> GmshFinalizeError"
  shows "output_file (snd (convert_to_stl_with_gmsh env fs)) = output_file fs"
proof (cases "meshio_read_ok env \<and> temp_write env = TempWritten \<and> gmsh_initialize_ok env")
  case False
  then show ?thesis
    by (auto simp: convert_to_stl_with_gmsh_def split: temp_write_outcome.splits)
next
  case True
  obtain r fs' where t: "try_body env (fs\<lparr>temp_exists := True\<rparr>) = (r, fs')"
    by (cases "try_body env (fs\<lparr>temp_exists := True\<rparr>)")
  from True t assms have f: "gmsh_finalize_ok env" and r: "r = Inl e"
    by (auto simp: convert_to_stl_with_gmsh_def split: if_splits)
  from t r have "fs' = fs\<lparr>temp_exists := True\<rparr>"
    using try_body_output_on_error [of env "fs\<lparr>temp_exists := True\<rparr>" e] by simp
  with True t f show ?thesis by (simp add: convert_to_stl_with_gmsh_def)
qed

lemma try_body_finalize:
  "try_body (env\<lparr>gmsh_finalize_ok := b\<rparr>) fs = try_body env fs"
  by (simp add: try_body_def split: sum.splits prod.splits)

section \<open>Cleanup of the intermediate file\<close>

text \<open>
  Once the \<^verbatim>\<open>try\<close> block is entered, the \<^verbatim>\<open>finally\<close> block removes the
  intermediate file whatever the body did, provided finalizing the kernel (which runs
  first) does not raise.
\<close>

lemma cleanup_after_try:
  assumes "meshio_read_ok env" and "temp_write env = TempWritten"
    and "gmsh_initialize_ok env" and "gmsh_finalize_ok env"
  shows "\<not> temp_exists (snd (convert_to_stl_with_gmsh env fs))"
  using assms by (simp add: convert_to_stl_with_gmsh_def split: prod.splits)

lemma cleanup_after_try_example:
  "\<not> temp_exists (snd (convert_to_stl_with_gmsh
       ((all_calls_succeed cube_model)\<lparr>gmsh_open_ok := False\<rparr>) no_files))"
  by (rule cleanup_after_try) (simp_all add: all_calls_succeed_def)

text \<open>
  C3 fails where the call raises between writing the intermediate file (line 21) and
  entering \<^verbatim>\<open>try\<close> (line 28): when initializing the kernel (line 25) raises, the
  exception leaves the function without passing the \<^verbatim>\<open>finally\<close> block, and the
  intermediate file stays. The same holds when writing the intermediate file raises
  after the file was created, and when finalizing the kernel raises.
\<close>

theorem temp_file_left_when_initialize_raises:
  "convert_to_stl_with_gmsh ((all_calls_succeed cube_model)\<lparr>gmsh_initialize_ok := False\<rparr>) no_files
     = (Inl GmshInitError, \<lparr>temp_exists = True, output_file = None\<rparr>)
   \<and> convert_to_stl_with_gmsh ((all_calls_succeed cube_model)\<lparr>temp_write := TempFailsFileLeft\<rparr>) no_files
     = (Inl TempWriteError, \<lparr>temp_exists = True, output_file = None\<rparr>)
   \<and> convert_to_stl_with_gmsh ((all_calls_succeed cube_model)\<lparr>gmsh_finalize_ok := False\<rparr>) no_files
     = (Inl GmshFinalizeError,
        \<lparr>temp_exists = True,
         output_file = Some
           \<lparr>points = [[0, 0, 0], [1, 0, 0], [1, 1, 0], [0, 1, 0],
                      [0, 0, 1], [1, 0, 1], [1, 1, 1], [0, 1, 1]],
            triangle_cells =
              [[0, 1, 2], [0, 2, 3], [4, 5, 6], [4, 6, 7], [0, 1, 5], [0, 5, 4],
               [1, 2, 6], [1, 6, 5], [2, 3, 7], [2, 7, 6], [3, 0, 4], [3, 4, 7]]\<rparr>\<rparr>)"
proof -
  have a: "convert_to_stl_with_gmsh ((all_calls_succeed cube_model)\<lparr>gmsh_initialize_ok := False\<rparr>) no_files
     = (Inl GmshInitError, \<lparr>temp_exists = True, output_file = None\<rparr>)"
    by (simp add: convert_to_stl_with_gmsh_def all_calls_succeed_def no_files_def)
  have b: "convert_to_stl_with_gmsh ((all_calls_succeed cube_model)\<lparr>temp_write := TempFailsFileLeft\<rparr>) no_files
     = (Inl TempWriteError, \<lparr>temp_exists = True, output_file = None\<rparr>)"
    by (simp add: convert_to_stl_with_gmsh_def all_calls_succeed_def no_files_def)
  have "convert_to_stl_with_gmsh ((all_calls_succeed cube_model)\<lparr>gmsh_finalize_ok := False\<rparr>) no_files
     = (Inl GmshFinalizeError,
        no_files\<lparr>temp_exists := True\<rparr>\<lparr>output_file := Some
           \<lparr>points = [[0, 0, 0], [1, 0, 0], [1, 1, 0], [0, 1, 0],
                      [0, 0, 1], [1, 0, 1], [1, 1, 1], [0, 1, 1]],
            triangle_cells =
              [[0, 1, 2], [0, 2, 3], [4, 5, 6], [4, 6, 7], [0, 1, 5], [0, 5, 4],
               [1, 2, 6], [1, 6, 5], [2, 3, 7], [2, 7, 6], [3, 0, 4], [3, 4, 7]]\<rparr>\<rparr>)"
    unfolding convert_to_stl_with_gmsh_def try_body_finalize cube_try_body
    by (simp add: all_calls_succeed_def)
  then have c: "convert_to_stl_with_gmsh ((all_calls_succeed cube_model)\<lparr>gmsh_finalize_ok := False\<rparr>) no_files
     = (Inl GmshFinalizeError,
        \<lparr>temp_exists = True,
         output_file = Some
           \<lparr>points = [[0, 0, 0], [1, 0, 0], [1, 1, 0], [0, 1, 0],
                      [0, 0, 1], [1, 0, 1], [1, 1, 1], [0, 1, 1]],
            triangle_cells =
              [[0, 1, 2], [0, 2, 3], [4, 5, 6], [4, 6, 7], [0, 1, 5], [0, 5, 4],
               [1, 2, 6], [1, 6, 5], [2, 3, 7], [2, 7, 6], [3, 0, 4], [3, 4, 7]]\<rparr>\<rparr>)"
    by (simp add: no_files_def)
  from a b c show ?thesis by simp
qed

section \<open>What the two passes can derive\<close>

lemma extend_rows_empty:
  assumes "extend_rows k faces_of conn = Inr []" and "0 < k"
    and "\<And>row. faces_of row \<noteq> []"
  shows "conn = []"
proof -
  from assms(1) obtain rows where r: "reshape k conn = Inr rows" and c: "concat (map faces_of rows) = []"
    by (auto simp: extend_rows_def split: sum.splits)
  from c assms(3) have "rows = []" by (cases rows) auto
  with r have "length conn mod k = 0" and "length conn div k = 0"
    by (auto simp: reshape_def split: if_splits)
  then have "length conn = 0" using assms(2) by (metis div_mult_mod_eq add_0 mult_0)
  then show ?thesis by simp
qed

lemma classify_block_empty:
  assumes "classify_block b = Inr []"
  shows "elem_connectivity b = []"
proof -
  have "extend_rows 4 tet_faces (elem_connectivity b) = Inr []
      \<or> extend_rows 8 hex_faces (elem_connectivity b) = Inr []
      \<or> extend_rows 3 tri_faces (elem_connectivity b) = Inr []
      \<or> extend_rows 4 quad_faces (elem_connectivity b) = Inr []"
    using assms by (simp add: classify_block_def split: if_splits)
  then show ?thesis
  proof (elim disjE)
    assume "extend_rows 4 tet_faces (elem_connectivity b) = Inr []"
    then show ?thesis by (rule extend_rows_empty) (simp_all add: tet_faces_def)
  next
    assume "extend_rows 8 hex_faces (elem_connectivity b) = Inr []"
    then show ?thesis by (rule extend_rows_empty) (simp_all add: hex_faces_def)
  next
    assume "extend_rows 3 tri_faces (elem_connectivity b) = Inr []"
    then show ?thesis by (rule extend_rows_empty) (simp_all add: tri_faces_def)
  next
    assume "extend_rows 4 quad_faces (elem_connectivity b) = Inr []"
    then show ?thesis by (rule extend_rows_empty) (simp_all add: quad_faces_def)
  qed
qed

lemma classify_blocks_Cons:
  "classify_blocks [] (b # bs) =
     (case classify_block b of
        Inl e \<Rightarrow> Inl e
      | Inr fs \<Rightarrow> (case classify_blocks [] bs of Inl e \<Rightarrow> Inl e | Inr gs \<Rightarrow> Inr (fs @ gs)))"
proof (cases "classify_block b")
  case (Inl e)
  then show ?thesis by simp
next
  case (Inr fs)
  have "classify_blocks [] (b # bs) = classify_blocks fs bs" using Inr by simp
  also have "\<dots> = (case classify_blocks [] bs of Inl e \<Rightarrow> Inl e | Inr gs \<Rightarrow> Inr (fs @ gs))"
    by (rule classify_blocks_acc)
  finally show ?thesis using Inr by simp
qed

lemma classify_blocks_empty:
  assumes "classify_blocks [] blocks = Inr []"
  shows "\<forall>b\<in>set blocks. elem_connectivity b = []"
  using assms
proof (induction blocks)
  case Nil
  show ?case by simp
next
  case (Cons b bs)
  from Cons.prems have "(case classify_block b of
        Inl e \<Rightarrow> Inl e
      | Inr fs \<Rightarrow> (case classify_blocks [] bs of Inl e \<Rightarrow> Inl e | Inr gs \<Rightarrow> Inr (fs @ gs)))
      = Inr []"
    by (simp only: classify_blocks_Cons)
  then have "classify_block b = Inr []" and "classify_blocks [] bs = Inr []"
    by (auto split: sum.splits)
  then show ?case using Cons.IH classify_block_empty by simp
qed

lemma fallback_blocks_no_elements:
  assumes "\<forall>b\<in>set blocks. elem_connectivity b = []"
  shows "fallback_blocks all_faces blocks = Inr all_faces"
  using assms
  by (induction blocks) (simp_all add: fallback_block_def reshape_def)

text \<open>
  When the direct pass returns no face, no element type has an element, and the
  fallback pass finds nothing either: the surface is always what the direct pass
  derived.
\<close>

lemma fallback_pass_after_empty_direct_pass:
  assumes "classify_blocks [] blocks = Inr []"
  shows "fallback_pass blocks = Inr []"
  using fallback_blocks_no_elements [OF classify_blocks_empty [OF assms], of "[]"]
  by (simp add: fallback_pass_def)

lemma derive_surface_direct:
  "derive_surface blocks =
     (case classify_blocks [] blocks of
        Inl e \<Rightarrow> Inl e
      | Inr faces \<Rightarrow> if faces = [] then Inl NoSurfaceElements else Inr faces)"
proof (cases "classify_blocks [] blocks")
  case (Inl e)
  then show ?thesis by (simp add: derive_surface_def)
next
  case (Inr faces)
  show ?thesis
  proof (cases "faces = []")
    case True
    with Inr fallback_pass_after_empty_direct_pass [of blocks] show ?thesis
      by (simp add: derive_surface_def)
  next
    case False
    with Inr show ?thesis by (simp add: derive_surface_def)
  qed
qed

lemma extend_rows_length3:
  assumes "extend_rows k faces_of conn = Inr faces" and "face \<in> set faces"
    and "\<And>row f. f \<in> set (faces_of row) \<Longrightarrow> length f = 3"
  shows "length face = 3"
  using assms by (auto simp: extend_rows_def split: sum.splits)

lemma classify_block_length3:
  assumes "classify_block b = Inr faces" and "face \<in> set faces"
  shows "length face = 3"
proof -
  have "extend_rows 4 tet_faces (elem_connectivity b) = Inr faces
      \<or> extend_rows 8 hex_faces (elem_connectivity b) = Inr faces
      \<or> extend_rows 3 tri_faces (elem_connectivity b) = Inr faces
      \<or> extend_rows 4 quad_faces (elem_connectivity b) = Inr faces"
    using assms(1) by (simp add: classify_block_def split: if_splits)
  then show ?thesis
  proof (elim disjE)
    assume "extend_rows 4 tet_faces (elem_connectivity b) = Inr faces"
    then show ?thesis using assms(2) by (rule extend_rows_length3) (auto simp: tet_faces_def)
  next
    assume "extend_rows 8 hex_faces (elem_connectivity b) = Inr faces"
    then show ?thesis using assms(2) by (rule extend_rows_length3) (auto simp: hex_faces_def)
  next
    assume "extend_rows 3 tri_faces (elem_connectivity b) = Inr faces"
    then show ?thesis using assms(2) by (rule extend_rows_length3) (auto simp: tri_faces_def)
  next
    assume "extend_rows 4 quad_faces (elem_connectivity b) = Inr faces"
    then show ?thesis using assms(2) by (rule extend_rows_length3) (auto simp: quad_faces_def)
  qed
qed

lemma classify_blocks_length3:
  assumes "classify_blocks [] blocks = Inr faces" and "face \<in> set faces"
  shows "length face = 3"
  using assms
proof (induction blocks arbitrary: faces)
  case Nil
  then show ?case by simp
next
  case (Cons b bs)
  from Cons.prems(1) have "(case classify_block b of
        Inl e \<Rightarrow> Inl e
      | Inr fs \<Rightarrow> (case classify_blocks [] bs of Inl e \<Rightarrow> Inl e | Inr gs \<Rightarrow> Inr (fs @ gs)))
      = Inr faces"
    by (simp only: classify_blocks_Cons)
  then obtain fs gs where b: "classify_block b = Inr fs"
    and bs: "classify_blocks [] bs = Inr gs" and f: "faces = fs @ gs"
    by (auto split: sum.splits)
  from Cons.prems(2) f have "face \<in> set fs \<or> face \<in> set gs" by simp
  then show ?case using classify_block_length3 [OF b] Cons.IH [OF bs] by blast
qed

lemma derive_surface_length3:
  assumes "derive_surface blocks = Inr faces" and "face \<in> set faces"
  shows "length face = 3"
proof -
  from assms(1) have "classify_blocks [] blocks = Inr faces"
    by (simp add: derive_surface_direct split: sum.splits if_splits)
  then show ?thesis using assms(2) by (rule classify_blocks_length3)
qed

section \<open>Fatal failures before the STL is written\<close>

lemma mesh_loaded_convert:
  assumes "mesh_loaded env"
  shows "convert_to_stl_with_gmsh env fs =
           (fst (try_body env (fs\<lparr>temp_exists := True\<rparr>)),
            snd (try_body env (fs\<lparr>temp_exists := True\<rparr>))\<lparr>temp_exists := False\<rparr>)"
  using assms by (simp add: mesh_loaded_def convert_to_stl_with_gmsh_def split: prod.splits)

lemma mesh_loaded_reshape:
  assumes "mesh_loaded env"
  shows "\<exists>coords. reshape 3 (node_coords (gmsh_view env)) = Inr coords"
  using assms by (simp add: mesh_loaded_def reshape_def)

lemma convert_is_error:
  assumes "\<exists>e. fst (try_body env (fs\<lparr>temp_exists := True\<rparr>)) = Inl e"
  shows "\<exists>e. fst (convert_to_stl_with_gmsh env fs) = Inl e"
  using assms
  by (auto simp: convert_to_stl_with_gmsh_def split: temp_write_outcome.splits prod.splits)

lemma convert_error_keeps_output:
  assumes "\<exists>e. fst (try_body env (fs\<lparr>temp_exists := True\<rparr>)) = Inl e"
  shows "output_file (snd (convert_to_stl_with_gmsh env fs)) = output_file fs"
proof -
  from assms obtain e where e: "fst (try_body env (fs\<lparr>temp_exists := True\<rparr>)) = Inl e" by blast
  then have "snd (try_body env (fs\<lparr>temp_exists := True\<rparr>)) = fs\<lparr>temp_exists := True\<rparr>"
    by (rule try_body_output_on_error)
  then show ?thesis
    by (auto simp: convert_to_stl_with_gmsh_def split: temp_write_outcome.splits prod.splits)
qed

lemma try_body_no_faces:
  assumes "classify_blocks [] (element_blocks (gmsh_view env)) = Inr []"
  shows "\<exists>e. fst (try_body env fs) = Inl e"
    and "gmsh_open_ok env \<Longrightarrow> reshape 3 (node_coords (gmsh_view env)) = Inr coords \<Longrightarrow>
           fst (try_body env fs) = Inl NoSurfaceElements"
  using assms by (auto simp: try_body_def derive_surface_direct split: sum.splits)

lemma try_body_no_triangles:
  assumes "derive_surface (element_blocks (gmsh_view env)) = Inr surface_elements"
    and "fst (remap_faces (build_node_map (node_tags (gmsh_view env))) surface_elements ([], [])) = []"
  shows "\<exists>e. fst (try_body env fs) = Inl e"
    and "gmsh_open_ok env \<Longrightarrow> reshape 3 (node_coords (gmsh_view env)) = Inr coords \<Longrightarrow>
           fst (try_body env fs) =
             Inl (if node_tags (gmsh_view env) = [] then EmptySequence else NoValidTriangles)"
  using assms by (auto simp: try_body_def split: sum.splits prod.splits)

text \<open>
  C4. When the direct pass and the fallback pass both derive no face, and likewise
  when faces were derived but none of them is left after node remapping, the call
  raises and the output path is left as it was. If the call got as far as the
  element loop, the error is "Could not extract any surface elements" in the first
  case and, in the second, "No valid triangles to write" (or the error of
  \<^verbatim>\<open>min\<close> on an empty sequence when there is no node at all).
\<close>

theorem no_faces_is_fatal:
  assumes "(classify_blocks [] (element_blocks (gmsh_view env)) = Inr []
            \<and> fallback_pass (element_blocks (gmsh_view env)) = Inr [])
         \<or> (\<exists>surface_elements.
               derive_surface (element_blocks (gmsh_view env)) = Inr surface_elements
             \<and> fst (remap_faces (build_node_map (node_tags (gmsh_view env)))
                      surface_elements ([], [])) = [])"
  shows "(\<exists>e. fst (convert_to_stl_with_gmsh env fs) = Inl e)
       \<and> output_file (snd (convert_to_stl_with_gmsh env fs)) = output_file fs
       \<and> (mesh_loaded env \<longrightarrow>
            fst (convert_to_stl_with_gmsh env fs) =
              Inl (if classify_blocks [] (element_blocks (gmsh_view env)) = Inr []
                   then NoSurfaceElements
                   else if node_tags (gmsh_view env) = [] then EmptySequence
                   else NoValidTriangles))"
proof -
  let ?fs = "fs\<lparr>temp_exists := True\<rparr>"
  have err: "\<exists>e. fst (try_body env ?fs) = Inl e"
    using assms try_body_no_faces(1) [of env ?fs] try_body_no_triangles(1) [of env _ ?fs]
    by blast
  have exact: "fst (try_body env ?fs) =
              Inl (if classify_blocks [] (element_blocks (gmsh_view env)) = Inr []
                   then NoSurfaceElements
                   else if node_tags (gmsh_view env) = [] then EmptySequence
                   else NoValidTriangles)" if l: "mesh_loaded env"
  proof -
    from l have o: "gmsh_open_ok env" by (simp add: mesh_loaded_def)
    from mesh_loaded_reshape [OF l] obtain coords
      where r: "reshape 3 (node_coords (gmsh_view env)) = Inr coords" by blast
    show ?thesis
    proof (cases "classify_blocks [] (element_blocks (gmsh_view env)) = Inr []")
      case True
      then show ?thesis using try_body_no_faces(2) [OF True o r] by simp
    next
      case False
      with assms obtain se where "derive_surface (element_blocks (gmsh_view env)) = Inr se"
        and "fst (remap_faces (build_node_map (node_tags (gmsh_view env))) se ([], [])) = []"
        by blast
      then show ?thesis using try_body_no_triangles(2) [OF _ _ o r] False by simp
    qed
  qed
  show ?thesis
    using convert_is_error [OF err] convert_error_keeps_output [OF err] exact
    by (simp add: mesh_loaded_convert)
qed

theorem no_faces_is_fatal_witness:
  "convert_to_stl_with_gmsh (all_calls_succeed nodes_only_model) no_files
     = (Inl NoSurfaceElements, no_files)
   \<and> convert_to_stl_with_gmsh (all_calls_succeed all_dangling_model) no_files
     = (Inl NoValidTriangles, no_files)"
proof -
  have l: "mesh_loaded (all_calls_succeed nodes_only_model)"
    "mesh_loaded (all_calls_succeed all_dangling_model)"
    by (simp_all add: mesh_loaded_def all_calls_succeed_def nodes_only_model_def
        all_dangling_model_def)
  have t: "\<not> temp_exists (snd (convert_to_stl_with_gmsh (all_calls_succeed nodes_only_model) no_files))"
    "\<not> temp_exists (snd (convert_to_stl_with_gmsh (all_calls_succeed all_dangling_model) no_files))"
    by (rule cleanup_after_try; simp add: all_calls_succeed_def)+
  have c1: "classify_blocks [] (element_blocks (gmsh_view (all_calls_succeed nodes_only_model))) = Inr []"
    by (simp add: all_calls_succeed_def nodes_only_model_def)
  have f1: "fallback_pass (element_blocks (gmsh_view (all_calls_succeed nodes_only_model))) = Inr []"
    by (simp add: all_calls_succeed_def nodes_only_model_def fallback_pass_def)
  have c2: "classify_blocks [] (element_blocks (gmsh_view (all_calls_succeed all_dangling_model)))
      = Inr [[7, 8, 9]]"
    by (simp add: all_calls_succeed_def all_dangling_model_def classify_block_def tetra_names_def
        hexa_names_def triangle_names_def extend_rows_def reshape_def tri_faces_def upt_rec)
  have d2: "derive_surface (element_blocks (gmsh_view (all_calls_succeed all_dangling_model)))
      = Inr [[7, 8, 9]]"
    unfolding derive_surface_direct c2 by simp
  have n2: "node_tags (gmsh_view (all_calls_succeed all_dangling_model)) = [1, 2, 3, 4]"
    by (simp add: all_calls_succeed_def all_dangling_model_def)
  have m2: "fst (remap_faces (build_node_map (node_tags (gmsh_view (all_calls_succeed all_dangling_model))))
      [[7, 8, 9]] ([], [])) = []"
    unfolding n2 by (simp add: build_node_map_def)
  have a: "fst (convert_to_stl_with_gmsh (all_calls_succeed nodes_only_model) no_files)
             = Inl NoSurfaceElements
       \<and> output_file (snd (convert_to_stl_with_gmsh (all_calls_succeed nodes_only_model) no_files))
             = output_file (no_files :: int files)"
    using no_faces_is_fatal [of "all_calls_succeed nodes_only_model" no_files] c1 f1 l(1)
    by simp
  have b: "fst (convert_to_stl_with_gmsh (all_calls_succeed all_dangling_model) no_files)
             = Inl NoValidTriangles
       \<and> output_file (snd (convert_to_stl_with_gmsh (all_calls_succeed all_dangling_model) no_files))
             = output_file (no_files :: int files)"
    using no_faces_is_fatal [of "all_calls_succeed all_dangling_model" no_files] d2 m2 l(2) c2 n2
    by auto
  show ?thesis
    using a b t
    by (auto simp: no_files_def prod_eq_iff intro!: files.equality)
qed

section \<open>Unknown element types\<close>

lemma classify_blocks_unknown:
  assumes "\<forall>b\<in>set pre. \<exists>faces. classify_block b = Inr faces"
    and "classify_block b = Inl e"
  shows "classify_blocks acc (pre @ b # post) = Inl e"
  using assms by (induction pre arbitrary: acc) auto

lemma classify_block_cases:
  "(\<exists>faces. classify_block b = Inr faces)
   \<or> classify_block b = Inl ReshapeError
   \<or> (elem_name b \<notin> set (tetra_names @ hexa_names @ triangle_names @ quad_names)
      \<and> classify_block b = Inl (UnknownElementType (elem_name b)))"
proof (cases "classify_block b")
  case (Inr faces)
  then show ?thesis by simp
next
  case (Inl e)
  then show ?thesis
    by (auto simp: classify_block_def extend_rows_def dest: reshape_error
        split: if_splits sum.splits)
qed

lemma classify_block_unknown_name:
  assumes "elem_name b \<notin> set (tetra_names @ hexa_names @ triangle_names @ quad_names)"
  shows "classify_block b = Inl (UnknownElementType (elem_name b))"
  using assms by (simp add: classify_block_def)

lemma first_unknown_block:
  assumes "\<exists>b\<in>set blocks. elem_name b \<notin> set names"
  shows "\<exists>pre b post. blocks = pre @ b # post \<and> elem_name b \<notin> set names
           \<and> (\<forall>b'\<in>set pre. elem_name b' \<in> set names)"
proof -
  from assms have "\<exists>b\<in>set blocks. \<not> (elem_name b \<in> set names)" by simp
  then obtain pre b post where "blocks = pre @ b # post" "\<not> (elem_name b \<in> set names)"
    "\<forall>b'\<in>set pre. \<not> \<not> (elem_name b' \<in> set names)"
    by (auto simp: split_list_first_prop_iff)
  then show ?thesis by auto
qed

text \<open>
  C5. When the mesh was loaded, some element type has a name that is in none of the
  four lists of recognized names, and no connectivity buffer fails to reshape, the
  call raises "Unknown element type" for the first such type during the direct pass,
  and the output path is left as it was.
\<close>

theorem unknown_element_type_is_fatal:
  assumes loaded: "mesh_loaded env"
    and unknown: "\<exists>b\<in>set (element_blocks (gmsh_view env)).
          elem_name b \<notin> set (tetra_names @ hexa_names @ triangle_names @ quad_names)"
    and shapes: "\<forall>b\<in>set (element_blocks (gmsh_view env)). classify_block b \<noteq> Inl ReshapeError"
  shows "\<exists>pre b post. element_blocks (gmsh_view env) = pre @ b # post
           \<and> elem_name b \<notin> set (tetra_names @ hexa_names @ triangle_names @ quad_names)
           \<and> (\<forall>b'\<in>set pre. elem_name b' \<in> set (tetra_names @ hexa_names @ triangle_names @ quad_names))
           \<and> classify_blocks [] (element_blocks (gmsh_view env)) = Inl (UnknownElementType (elem_name b))
           \<and> convert_to_stl_with_gmsh env fs
               = (Inl (UnknownElementType (elem_name b)), fs\<lparr>temp_exists := False\<rparr>)"
proof -
  let ?names = "tetra_names @ hexa_names @ triangle_names @ quad_names"
  from first_unknown_block [OF unknown] obtain pre b post
    where split: "element_blocks (gmsh_view env) = pre @ b # post"
      and b: "elem_name b \<notin> set ?names"
      and pre: "\<forall>b'\<in>set pre. elem_name b' \<in> set ?names"
    by blast
  have "\<forall>b'\<in>set pre. \<exists>faces. classify_block b' = Inr faces"
  proof
    fix b' assume b': "b' \<in> set pre"
    then have "b' \<in> set (element_blocks (gmsh_view env))" using split by simp
    with shapes have "classify_block b' \<noteq> Inl ReshapeError" by blast
    moreover have "elem_name b' \<in> set ?names" using pre b' by blast
    ultimately show "\<exists>faces. classify_block b' = Inr faces"
      using classify_block_cases [of b'] by blast
  qed
  then have c: "classify_blocks [] (element_blocks (gmsh_view env)) = Inl (UnknownElementType (elem_name b))"
    unfolding split using classify_block_unknown_name [OF b] by (rule classify_blocks_unknown)
  from mesh_loaded_reshape [OF loaded] obtain coords
    where r: "reshape 3 (node_coords (gmsh_view env)) = Inr coords" by blast
  have o: "gmsh_open_ok env" using loaded by (simp add: mesh_loaded_def)
  have "try_body env (fs\<lparr>temp_exists := True\<rparr>)
          = (Inl (UnknownElementType (elem_name b)), fs\<lparr>temp_exists := True\<rparr>)"
    using o r c by (simp add: try_body_def derive_surface_direct)
  then have "convert_to_stl_with_gmsh env fs
               = (Inl (UnknownElementType (elem_name b)), fs\<lparr>temp_exists := False\<rparr>)"
    by (simp add: mesh_loaded_convert [OF loaded])
  with split b pre c show ?thesis by blast
qed

theorem unknown_element_type_is_fatal_witness:
  "convert_to_stl_with_gmsh (all_calls_succeed unknown_type_model) no_files
     = (Inl (UnknownElementType ''Tetrahedron 4''), no_files)"
proof -
  let ?env = "all_calls_succeed unknown_type_model"
  let ?b = "\<lparr>elem_type = 4, elem_name = ''Tetrahedron 4'', elem_tags = [1],
          elem_connectivity = [1, 2, 3, 4]\<rparr>"
  have blocks: "element_blocks (gmsh_view ?env) = [?b]"
    by (simp add: all_calls_succeed_def unknown_type_model_def)
  have name: "''Tetrahedron 4'' \<notin> set (tetra_names @ hexa_names @ triangle_names @ quad_names)"
    by (simp add: tetra_names_def hexa_names_def triangle_names_def quad_names_def)
  have "\<exists>pre b post. element_blocks (gmsh_view ?env) = pre @ b # post
           \<and> elem_name b \<notin> set (tetra_names @ hexa_names @ triangle_names @ quad_names)
           \<and> (\<forall>b'\<in>set pre. elem_name b' \<in> set (tetra_names @ hexa_names @ triangle_names @ quad_names))
           \<and> classify_blocks [] (element_blocks (gmsh_view ?env)) = Inl (UnknownElementType (elem_name b))
           \<and> convert_to_stl_with_gmsh ?env no_files
               = (Inl (UnknownElementType (elem_name b)), no_files\<lparr>temp_exists := False\<rparr>)"
  proof (rule unknown_element_type_is_fatal)
    show "mesh_loaded ?env"
      by (simp add: mesh_loaded_def all_calls_succeed_def unknown_type_model_def)
    show "\<exists>b\<in>set (element_blocks (gmsh_view ?env)).
          elem_name b \<notin> set (tetra_names @ hexa_names @ triangle_names @ quad_names)"
      unfolding blocks using name by simp
    show "\<forall>b\<in>set (element_blocks (gmsh_view ?env)). classify_block b \<noteq> Inl ReshapeError"
      unfolding blocks using classify_block_unknown_name [of ?b] name by simp
  qed
  then obtain pre b post where s: "[?b] = pre @ b # post"
    and c: "convert_to_stl_with_gmsh ?env no_files
               = (Inl (UnknownElementType (elem_name b)), no_files\<lparr>temp_exists := False\<rparr>)"
    unfolding blocks by blast
  from s have "b = ?b" by (cases pre) auto
  with c show ?thesis by (simp add: no_files_def)
qed

lemma enumerate_into_present:
  "t \<in> set tags \<Longrightarrow> enumerate_into i tags m t \<noteq> None"
proof (induction tags arbitrary: i m)
  case Nil
  then show ?case by simp
next
  case (Cons tag rest)
  show ?case
  proof (cases "t \<in> set rest")
    case True
    then show ?thesis using Cons.IH by simp
  next
    case False
    with Cons.prems have "t = tag" by simp
    with False show ?thesis by (simp add: enumerate_into_absent)
  qed
qed

lemma build_node_map_present:
  "t \<in> set tags \<Longrightarrow> build_node_map tags t \<noteq> None"
  by (simp add: build_node_map_def enumerate_into_present)

section \<open>Node remapping\<close>

lemma map_face_Inl:
  assumes "map_face node_map face = Inl missing"
  shows "missing \<in> set face \<and> node_map missing = None"
  using assms by (induction face) (auto split: option.splits sum.splits)

lemma map_face_Inr:
  assumes "map_face node_map face = Inr mapped"
  shows "length mapped = length face \<and> (\<forall>k<length face. node_map (face ! k) = Some (mapped ! k))"
  using assms
proof (induction face arbitrary: mapped)
  case Nil
  then show ?case by simp
next
  case (Cons node_tag rest)
  from Cons.prems obtain i mapped' where i: "node_map node_tag = Some i"
    and rest: "map_face node_map rest = Inr mapped'" and m: "mapped = i # mapped'"
    by (auto split: option.splits sum.splits)
  from Cons.IH [OF rest] i m show ?case by (auto simp: nth_Cons')
qed

lemma map_face_dangling:
  assumes "\<exists>node_tag\<in>set face. node_map node_tag = None"
  shows "\<exists>missing. map_face node_map face = Inl missing"
proof (cases "map_face node_map face")
  case (Inl missing)
  then show ?thesis by blast
next
  case (Inr mapped)
  from assms obtain k where "k < length face" "node_map (face ! k) = None"
    by (auto simp: in_set_conv_nth)
  with map_face_Inr [OF Inr] show ?thesis by simp
qed

lemma remap_faces_state:
  "remap_faces node_map faces (triangles, warnings) =
     (triangles @ concat (map (\<lambda>face. case map_face node_map face of
                                        Inl missing \<Rightarrow> [] | Inr mapped \<Rightarrow> [mapped]) faces),
      warnings @ concat (map (\<lambda>face. case map_face node_map face of
                                       Inl missing \<Rightarrow> [missing] | Inr mapped \<Rightarrow> []) faces))"
  by (induction faces arbitrary: triangles warnings) (auto split: sum.splits)

lemma remap_faces_skip:
  assumes "map_face node_map face = Inl missing"
  shows "remap_faces node_map (before @ face # after) ([], []) =
           (fst (remap_faces node_map before ([], [])) @ fst (remap_faces node_map after ([], [])),
            snd (remap_faces node_map before ([], [])) @ [missing]
              @ snd (remap_faces node_map after ([], [])))"
  using assms by (simp add: remap_faces_state)

lemma remap_faces_triangle:
  assumes "tri \<in> set (fst (remap_faces node_map faces ([], [])))"
  shows "\<exists>face\<in>set faces. map_face node_map face = Inr tri"
  using assms by (auto simp: remap_faces_state split: sum.splits)

lemma remap_faces_no_nodes:
  assumes "\<forall>face\<in>set faces. length face = 3"
  shows "fst (remap_faces (build_node_map []) faces ([], [])) = []"
proof (rule ccontr)
  assume "fst (remap_faces (build_node_map []) faces ([], [])) \<noteq> []"
  then obtain tri where "tri \<in> set (fst (remap_faces (build_node_map []) faces ([], [])))"
    by (cases "fst (remap_faces (build_node_map []) faces ([], []))") auto
  from remap_faces_triangle [OF this] obtain face where f: "face \<in> set faces"
    and m: "map_face (build_node_map []) face = Inr tri" by blast
  from f assms have "0 < length face" by auto
  with map_face_Inr [OF m] have "build_node_map [] (face ! 0) = Some (tri ! 0)" by blast
  then show False by (simp add: build_node_map_def)
qed

text \<open>
  C6. A derived face that names a node tag absent from the node map does not make
  the remapping raise: the loop adds nothing to the triangles for it, records one
  warning naming a missing tag of that face, and goes on, so the triangles are those
  of the faces before it followed by those of the faces after it. When the mesh was
  loaded, some other face was remapped and the STL writer succeeds, the conversion
  succeeds and writes exactly those triangles.
\<close>

theorem dangling_face_is_skipped:
  assumes dangling: "\<exists>node_tag\<in>set face. node_tag \<notin> set (node_tags (gmsh_view env))"
    and faces: "derive_surface (element_blocks (gmsh_view env)) = Inr (before @ face # after)"
  shows "\<exists>missing\<in>set face. missing \<notin> set (node_tags (gmsh_view env))
       \<and> remap_faces (build_node_map (node_tags (gmsh_view env))) (before @ face # after) ([], [])
           = (fst (remap_faces (build_node_map (node_tags (gmsh_view env))) before ([], []))
                @ fst (remap_faces (build_node_map (node_tags (gmsh_view env))) after ([], [])),
              snd (remap_faces (build_node_map (node_tags (gmsh_view env))) before ([], []))
                @ [missing]
                @ snd (remap_faces (build_node_map (node_tags (gmsh_view env))) after ([], [])))
       \<and> (mesh_loaded env \<and> stl_write_ok env
            \<and> fst (remap_faces (build_node_map (node_tags (gmsh_view env))) before ([], []))
                @ fst (remap_faces (build_node_map (node_tags (gmsh_view env))) after ([], [])) \<noteq> []
          \<longrightarrow> (\<exists>coords. reshape 3 (node_coords (gmsh_view env)) = Inr coords
               \<and> convert_to_stl_with_gmsh env fs =
                   (Inr (snd (remap_faces (build_node_map (node_tags (gmsh_view env))) before ([], []))
                          @ [missing]
                          @ snd (remap_faces (build_node_map (node_tags (gmsh_view env))) after ([], []))),
                    fs\<lparr>temp_exists := False,
                       output_file := Some
                         \<lparr>points = coords,
                          triangle_cells =
                            fst (remap_faces (build_node_map (node_tags (gmsh_view env))) before ([], []))
                            @ fst (remap_faces (build_node_map (node_tags (gmsh_view env))) after ([], []))\<rparr>\<rparr>)))"
proof -
  let ?tags = "node_tags (gmsh_view env)"
  let ?m = "build_node_map ?tags"
  let ?tris = "fst (remap_faces ?m before ([], [])) @ fst (remap_faces ?m after ([], []))"
  from dangling have "\<exists>node_tag\<in>set face. ?m node_tag = None"
    using build_node_map_absent by blast
  from map_face_dangling [OF this] obtain missing where mf: "map_face ?m face = Inl missing"
    by blast
  from map_face_Inl [OF mf] have mis: "missing \<in> set face" and none: "?m missing = None" by simp_all
  have absent: "missing \<notin> set ?tags"
    using none build_node_map_present [of missing ?tags] by blast
  let ?warns = "snd (remap_faces ?m before ([], [])) @ [missing] @ snd (remap_faces ?m after ([], []))"
  have skip: "remap_faces ?m (before @ face # after) ([], []) = (?tris, ?warns)"
    using mf by (rule remap_faces_skip)
  have conv: "\<exists>coords. reshape 3 (node_coords (gmsh_view env)) = Inr coords
               \<and> convert_to_stl_with_gmsh env fs =
                   (Inr ?warns,
                    fs\<lparr>temp_exists := False,
                       output_file := Some \<lparr>points = coords, triangle_cells = ?tris\<rparr>\<rparr>)"
    if l: "mesh_loaded env" and w: "stl_write_ok env" and ne: "?tris \<noteq> []"
  proof -
    from mesh_loaded_reshape [OF l] obtain coords
      where r: "reshape 3 (node_coords (gmsh_view env)) = Inr coords" by blast
    have o: "gmsh_open_ok env" using l by (simp add: mesh_loaded_def)
    have tags: "?tags \<noteq> []"
    proof
      assume e: "?tags = []"
      have "\<forall>f\<in>set (before @ face # after). length f = 3"
        using derive_surface_length3 [OF faces] by blast
      from remap_faces_no_nodes [OF this] skip ne e show False by simp
    qed
    have "try_body env (fs\<lparr>temp_exists := True\<rparr>) =
        (Inr ?warns, fs\<lparr>temp_exists := True\<rparr>\<lparr>output_file := Some \<lparr>points = coords, triangle_cells = ?tris\<rparr>\<rparr>)"
      using o r faces tags skip ne w by (rule try_body_success)
    then have "convert_to_stl_with_gmsh env fs =
                   (Inr ?warns,
                    fs\<lparr>temp_exists := False,
                       output_file := Some \<lparr>points = coords, triangle_cells = ?tris\<rparr>\<rparr>)"
      by (simp add: mesh_loaded_convert [OF l])
    with r show ?thesis by blast
  qed
  show ?thesis using mis absent skip conv by blast
qed

theorem dangling_face_is_skipped_witness:
  "convert_to_stl_with_gmsh (all_calls_succeed one_dangling_model) no_files =
     (Inr [9],
      \<lparr>temp_exists = False,
       output_file = Some
         \<lparr>points = [[0, 0, 0], [1, 0, 0], [0, 1, 0], [0, 0, 1]],
          triangle_cells = [[0, 1, 2], [1, 2, 3]]\<rparr>\<rparr>)"
proof -
  let ?env = "all_calls_succeed one_dangling_model"
  have tags: "node_tags (gmsh_view ?env) = [1, 2, 3, 4]"
    by (simp add: all_calls_succeed_def one_dangling_model_def)
  have c: "classify_blocks [] (element_blocks (gmsh_view ?env)) = Inr [[1, 2, 3], [2, 3, 9], [2, 3, 4]]"
    by (simp add: all_calls_succeed_def one_dangling_model_def classify_block_def tetra_names_def
        hexa_names_def triangle_names_def extend_rows_def reshape_def tri_faces_def upt_rec)
  have d: "derive_surface (element_blocks (gmsh_view ?env)) = Inr ([[1, 2, 3]] @ [2, 3, 9] # [[2, 3, 4]])"
    unfolding derive_surface_direct c by simp
  have dang: "\<exists>node_tag\<in>set [2, 3, 9]. node_tag \<notin> set (node_tags (gmsh_view ?env))"
    unfolding tags by simp
  have rb: "remap_faces (build_node_map (node_tags (gmsh_view ?env))) [[1, 2, 3]] ([], []) = ([[0, 1, 2]], [])"
    unfolding tags by (simp add: build_node_map_def)
  have ra: "remap_faces (build_node_map (node_tags (gmsh_view ?env))) [[2, 3, 4]] ([], []) = ([[1, 2, 3]], [])"
    unfolding tags by (simp add: build_node_map_def)
  have l: "mesh_loaded ?env" "stl_write_ok ?env"
    by (simp_all add: mesh_loaded_def all_calls_succeed_def one_dangling_model_def)
  have r: "reshape 3 (node_coords (gmsh_view ?env)) = Inr [[0, 0, 0], [1, 0, 0], [0, 1, 0], [0, 0, 1]]"
    by (simp add: all_calls_succeed_def one_dangling_model_def reshape_def upt_rec)
  from dangling_face_is_skipped [OF dang d, of no_files] obtain missing coords
    where m: "missing \<in> set [2, 3, 9]" "missing \<notin> set (node_tags (gmsh_view ?env))"
      and co: "reshape 3 (node_coords (gmsh_view ?env)) = Inr coords"
      and cv: "convert_to_stl_with_gmsh ?env no_files =
                 (Inr ([] @ [missing] @ []),
                  no_files\<lparr>temp_exists := False,
                       output_file := Some \<lparr>points = coords, triangle_cells = [[0, 1, 2]] @ [[1, 2, 3]]\<rparr>\<rparr>)"
    unfolding rb ra fst_conv snd_conv using l by auto
  from m have "missing = 9" unfolding tags by auto
  moreover from co r have "coords = [[0, 0, 0], [1, 0, 0], [0, 1, 0], [0, 0, 1]]" by simp
  ultimately show ?thesis using cv by (simp add: no_files_def)
qed

section \<open>What a successful conversion wrote\<close>

lemma try_body_Inr:
  assumes "try_body env fs = (Inr warnings, fs')"
  shows "\<exists>coords faces triangles.
           reshape 3 (node_coords (gmsh_view env)) = Inr coords
         \<and> derive_surface (element_blocks (gmsh_view env)) = Inr faces
         \<and> remap_faces (build_node_map (node_tags (gmsh_view env))) faces ([], [])
             = (triangles, warnings)
         \<and> triangles \<noteq> []
         \<and> fs' = fs\<lparr>output_file := Some \<lparr>points = coords, triangle_cells = triangles\<rparr>\<rparr>"
  using assms
  by (auto simp: try_body_def split: sum.splits prod.splits if_splits)

lemma convert_Inr:
  assumes "convert_to_stl_with_gmsh env fs = (Inr warnings, fs')"
  shows "\<exists>fs''. try_body env (fs\<lparr>temp_exists := True\<rparr>) = (Inr warnings, fs'')
           \<and> fs' = fs''\<lparr>temp_exists := False\<rparr>"
  using assms
  by (auto simp: convert_to_stl_with_gmsh_def
      split: temp_write_outcome.splits prod.splits if_splits)

lemma convert_success:
  assumes "convert_to_stl_with_gmsh env fs = (Inr warnings, fs')"
  shows "\<exists>coords faces triangles.
           reshape 3 (node_coords (gmsh_view env)) = Inr coords
         \<and> derive_surface (element_blocks (gmsh_view env)) = Inr faces
         \<and> remap_faces (build_node_map (node_tags (gmsh_view env))) faces ([], [])
             = (triangles, warnings)
         \<and> triangles \<noteq> []
         \<and> output_file fs' = Some \<lparr>points = coords, triangle_cells = triangles\<rparr>"
proof -
  from convert_Inr [OF assms] obtain fs''
    where t: "try_body env (fs\<lparr>temp_exists := True\<rparr>) = (Inr warnings, fs'')"
      and f: "fs' = fs''\<lparr>temp_exists := False\<rparr>" by blast
  from try_body_Inr [OF t] f show ?thesis by auto
qed

text \<open>
  C9. After a successful conversion, every triangle handed to the STL writer has
  three indices; it is the image of a derived face, and each index is below the
  number of harvested nodes and is a position, in the order the kernel returned the
  node tags, of the face's node tag at that corner. When the node tags are pairwise
  different (as the kernel returns them) it is the only such position.
\<close>

theorem output_triangles_index_harvested_nodes:
  assumes "convert_to_stl_with_gmsh env fs = (Inr warnings, fs')"
  shows "\<exists>out faces. output_file fs' = Some out
       \<and> derive_surface (element_blocks (gmsh_view env)) = Inr faces
       \<and> (\<forall>tri\<in>set (triangle_cells out).
            length tri = 3
          \<and> (\<exists>face\<in>set faces. length face = 3
               \<and> (\<forall>k<3. tri ! k < length (node_tags (gmsh_view env))
                      \<and> node_tags (gmsh_view env) ! (tri ! k) = face ! k
                      \<and> (distinct (node_tags (gmsh_view env)) \<longrightarrow>
                           (\<forall>j<length (node_tags (gmsh_view env)).
                              node_tags (gmsh_view env) ! j = face ! k \<longrightarrow> j = tri ! k)))))"
proof -
  let ?tags = "node_tags (gmsh_view env)"
  from convert_success [OF assms] obtain coords faces triangles
    where d: "derive_surface (element_blocks (gmsh_view env)) = Inr faces"
      and r: "remap_faces (build_node_map ?tags) faces ([], []) = (triangles, warnings)"
      and o: "output_file fs' = Some \<lparr>points = coords, triangle_cells = triangles\<rparr>"
    by blast
  have "length tri = 3
          \<and> (\<exists>face\<in>set faces. length face = 3
               \<and> (\<forall>k<3. tri ! k < length ?tags \<and> ?tags ! (tri ! k) = face ! k
                      \<and> (distinct ?tags \<longrightarrow>
                           (\<forall>j<length ?tags. ?tags ! j = face ! k \<longrightarrow> j = tri ! k))))"
    if tri: "tri \<in> set triangles" for tri
  proof -
    from tri r have "tri \<in> set (fst (remap_faces (build_node_map ?tags) faces ([], [])))" by simp
    from remap_faces_triangle [OF this] obtain face where f: "face \<in> set faces"
      and m: "map_face (build_node_map ?tags) face = Inr tri" by blast
    have l: "length face = 3" using d f by (rule derive_surface_length3)
    from map_face_Inr [OF m] have lt: "length tri = length face"
      and look: "\<And>k. k < length face \<Longrightarrow> build_node_map ?tags (face ! k) = Some (tri ! k)"
      by simp_all
    have "tri ! k < length ?tags \<and> ?tags ! (tri ! k) = face ! k
           \<and> (distinct ?tags \<longrightarrow> (\<forall>j<length ?tags. ?tags ! j = face ! k \<longrightarrow> j = tri ! k))"
      if k: "k < 3" for k
    proof -
      from look [of k] k l have "build_node_map ?tags (face ! k) = Some (tri ! k)" by simp
      from build_node_map_Some [OF this]
      have a: "tri ! k < length ?tags" and b: "?tags ! (tri ! k) = face ! k" by simp_all
      have "j = tri ! k" if "distinct ?tags" "j < length ?tags" "?tags ! j = face ! k" for j
        using that a b by (metis nth_eq_iff_index_eq)
      with a b show ?thesis by blast
    qed
    with f l lt show ?thesis by auto
  qed
  with d o show ?thesis by auto
qed

theorem output_triangles_index_harvested_nodes_witness:
  "\<exists>out. output_file (snd (convert_to_stl_with_gmsh (all_calls_succeed cube_model) no_files)) = Some out
      \<and> triangle_cells out \<noteq> []
      \<and> list_all (\<lambda>tri. length tri = 3 \<and> tri ! 0 < 8 \<and> tri ! 1 < 8 \<and> tri ! 2 < 8) (triangle_cells out)"
proof -
  have n: "length (node_tags (gmsh_view (all_calls_succeed cube_model))) = 8"
    by (simp add: all_calls_succeed_def cube_model_def)
  from output_triangles_index_harvested_nodes [OF cube_conversion] obtain out
    where o: "output_file \<lparr>temp_exists = False,
       output_file = Some
         \<lparr>points = [[0, 0, 0], [1, 0, 0], [1, 1, 0], [0, 1, 0],
                    [0, 0, 1], [1, 0, 1], [1, 1, 1], [0, 1, 1 :: int]],
          triangle_cells =
            [[0, 1, 2], [0, 2, 3], [4, 5, 6], [4, 6, 7], [0, 1, 5], [0, 5, 4],
             [1, 2, 6], [1, 6, 5], [2, 3, 7], [2, 7, 6], [3, 0, 4], [3, 4, 7]]\<rparr>\<rparr> = Some out"
      and t: "\<forall>tri\<in>set (triangle_cells out). length tri = 3
                \<and> (\<forall>k<3. tri ! k < length (node_tags (gmsh_view (all_calls_succeed cube_model))))"
    by blast
  from t have "list_all (\<lambda>tri. length tri = 3 \<and> tri ! 0 < 8 \<and> tri ! 1 < 8 \<and> tri ! 2 < 8) (triangle_cells out)"
    unfolding n by (simp add: list_all_iff)
  moreover from o have "triangle_cells out \<noteq> []" by auto
  ultimately show ?thesis using o by (simp add: cube_conversion)
qed

lemma reshape3_rows:
  assumes "reshape 3 c = Inr rows"
  shows "rows = map (\<lambda>i. [c ! (3 * i), c ! (3 * i + 1), c ! (3 * i + 2)]) [0..<length c div 3]"
    and "length c = 3 * length rows"
proof -
  from assms have m: "length c mod 3 = 0"
    and rows: "rows = map (\<lambda>i. take 3 (drop (i * 3) c)) [0..<length c div 3]"
    by (auto simp: reshape_def split: if_splits)
  have "take 3 (drop (i * 3) c) = [c ! (3 * i), c ! (3 * i + 1), c ! (3 * i + 2)]"
    if "i < length c div 3" for i
  proof -
    from that have "Suc i \<le> length c div 3" by simp
    then have "Suc i * 3 \<le> length c div 3 * 3" by (rule mult_le_mono1)
    also have "\<dots> \<le> length c" by simp
    finally have "i * 3 + 3 \<le> length c" by simp
    then show ?thesis
      by (auto simp: list_eq_iff_nth_eq nth_Cons' numeral_eq_Suc less_Suc_eq mult.commute)
  qed
  then show "rows = map (\<lambda>i. [c ! (3 * i), c ! (3 * i + 1), c ! (3 * i + 2)]) [0..<length c div 3]"
    unfolding rows by simp
  show "length c = 3 * length rows" using m rows by auto
qed

text \<open>
  C10. After a successful conversion, the vertex array handed to the STL writer is
  the coordinate buffer cut into consecutive triples, one per harvested node and in
  read order; it does not depend on the triangles, so nodes that no triangle uses
  are kept.
\<close>

theorem output_points_are_all_nodes:
  assumes "convert_to_stl_with_gmsh env fs = (Inr warnings, fs')"
  shows "\<exists>out. output_file fs' = Some out
       \<and> reshape 3 (node_coords (gmsh_view env)) = Inr (points out)
       \<and> points out =
           map (\<lambda>i. [node_coords (gmsh_view env) ! (3 * i),
                      node_coords (gmsh_view env) ! (3 * i + 1),
                      node_coords (gmsh_view env) ! (3 * i + 2)])
               [0..<length (node_coords (gmsh_view env)) div 3]
       \<and> length (node_coords (gmsh_view env)) = 3 * length (points out)
       \<and> (length (node_coords (gmsh_view env)) = 3 * length (node_tags (gmsh_view env))
            \<longrightarrow> length (points out) = length (node_tags (gmsh_view env)))"
proof -
  from convert_success [OF assms] obtain coords triangles
    where r: "reshape 3 (node_coords (gmsh_view env)) = Inr coords"
      and o: "output_file fs' = Some \<lparr>points = coords, triangle_cells = triangles\<rparr>"
    by blast
  from reshape3_rows [OF r] o r show ?thesis by auto
qed

lemma unused_node_conversion:
  "convert_to_stl_with_gmsh (all_calls_succeed unused_node_model) no_files =
     (Inr [],
      \<lparr>temp_exists = False,
       output_file = Some
         \<lparr>points = [[0, 0, 0], [1, 0, 0], [0, 1, 0], [0, 0, 1]],
          triangle_cells = [[0, 1, 2]]\<rparr>\<rparr>)"
proof -
  let ?env = "all_calls_succeed unused_node_model"
  have tags: "node_tags (gmsh_view ?env) = [1, 2, 3, 4]"
    by (simp add: all_calls_succeed_def unused_node_model_def)
  have c: "classify_blocks [] (element_blocks (gmsh_view ?env)) = Inr [[1, 2, 3]]"
    by (simp add: all_calls_succeed_def unused_node_model_def classify_block_def tetra_names_def
        hexa_names_def triangle_names_def extend_rows_def reshape_def tri_faces_def upt_rec)
  have d: "derive_surface (element_blocks (gmsh_view ?env)) = Inr [[1, 2, 3]]"
    unfolding derive_surface_direct c by simp
  have m: "remap_faces (build_node_map (node_tags (gmsh_view ?env))) [[1, 2, 3]] ([], []) = ([[0, 1, 2]], [])"
    unfolding tags by (simp add: build_node_map_def)
  have r: "reshape 3 (node_coords (gmsh_view ?env)) = Inr [[0, 0, 0], [1, 0, 0], [0, 1, 0], [0, 0, 1]]"
    by (simp add: all_calls_succeed_def unused_node_model_def reshape_def upt_rec)
  have t: "try_body ?env (no_files\<lparr>temp_exists := True\<rparr>) =
      (Inr [], no_files\<lparr>temp_exists := True\<rparr>\<lparr>output_file := Some
         \<lparr>points = [[0, 0, 0], [1, 0, 0], [0, 1, 0], [0, 0, 1]],
          triangle_cells = [[0, 1, 2]]\<rparr>\<rparr>)"
    by (rule try_body_success [OF _ r d _ m])
      (simp_all add: all_calls_succeed_simps unused_node_model_def)
  have "convert_to_stl_with_gmsh ?env no_files =
      (Inr [], no_files\<lparr>temp_exists := True\<rparr>\<lparr>output_file := Some
         \<lparr>points = [[0, 0, 0], [1, 0, 0], [0, 1, 0], [0, 0, 1]],
          triangle_cells = [[0, 1, 2]]\<rparr>\<rparr>\<lparr>temp_exists := False\<rparr>)"
    by (rule convert_all_ok [OF _ _ _ _ t]) (simp_all add: all_calls_succeed_simps)
  then show ?thesis by (simp add: no_files_def)
qed

theorem output_points_are_all_nodes_witness:
  "\<exists>out. output_file (snd (convert_to_stl_with_gmsh (all_calls_succeed unused_node_model) no_files))
            = Some out
      \<and> points out = [[0, 0, 0], [1, 0, 0], [0, 1, 0], [0, 0, 1]]
      \<and> triangle_cells out = [[0, 1, 2]]
      \<and> length (points out) = length (node_tags unused_node_model)"
proof -
  have v: "gmsh_view (all_calls_succeed unused_node_model) = unused_node_model"
    by (simp add: all_calls_succeed_def)
  have l: "length (node_coords unused_node_model) = 3 * length (node_tags unused_node_model)"
    by (simp add: unused_node_model_def)
  from output_points_are_all_nodes [OF unused_node_conversion] l obtain out
    where "output_file \<lparr>temp_exists = False,
       output_file = Some
         \<lparr>points = [[0, 0, 0], [1, 0, 0], [0, 1, 0], [0, 0, 1 :: int]],
          triangle_cells = [[0, 1, 2]]\<rparr>\<rparr> = Some out"
      and "length (points out) = length (node_tags unused_node_model)"
    unfolding v by blast
  then show ?thesis by (auto simp: unused_node_conversion)
qed

section \<open>Tetrahedral meshes as the kernel names them\<close>

text \<open>
  C7 fails on the program: for a mesh of one tetrahedron the kernel reports the
  element type under the name \<open>Tetrahedron 4\<close>, which is not among the three
  spellings line 51 compares with, so the direct pass emits no face and raises
  "Unknown element type: Tetrahedron 4" at line 104, and the conversion fails
  without writing an STL. The hexahedron branch (line 64) does list the kernel's
  spelling \<open>Hexahedron 8\<close>, and the substring test of the fallback pass
  (line 115) would accept \<open>Tetrahedron 4\<close>.
\<close>

theorem single_tetrahedron_is_rejected:
  "classify_blocks [] (element_blocks single_tet_model)
     = Inl (UnknownElementType ''Tetrahedron 4'')
   \<and> convert_to_stl_with_gmsh (all_calls_succeed single_tet_model) no_files
     = (Inl (UnknownElementType ''Tetrahedron 4''), no_files)
   \<and> ''Tetrahedron 4'' \<notin> set tetra_names
   \<and> ''Hexahedron 8'' \<in> set hexa_names
   \<and> str_in ''Tetrahedron'' ''Tetrahedron 4''"
proof -
  have n: "''Tetrahedron 4'' \<notin> set (tetra_names @ hexa_names @ triangle_names @ quad_names)"
    by (simp add: tetra_names_def hexa_names_def triangle_names_def quad_names_def)
  have c: "classify_blocks [] (element_blocks single_tet_model)
     = Inl (UnknownElementType ''Tetrahedron 4'')"
    using n by (simp add: single_tet_model_def classify_block_def)
  have l: "mesh_loaded (all_calls_succeed single_tet_model)"
    by (simp add: mesh_loaded_def all_calls_succeed_def single_tet_model_def)
  have r: "reshape 3 (node_coords (gmsh_view (all_calls_succeed single_tet_model)))
      = Inr [[0, 0, 0], [1, 0, 0], [0, 1, 0], [0, 0, 1]]"
    by (simp add: all_calls_succeed_def single_tet_model_def reshape_def upt_rec)
  have "try_body (all_calls_succeed single_tet_model) (no_files\<lparr>temp_exists := True\<rparr>)
      = (Inl (UnknownElementType ''Tetrahedron 4''), no_files\<lparr>temp_exists := True\<rparr>)"
    using c r by (simp add: try_body_def derive_surface_direct all_calls_succeed_simps)
  then have v: "convert_to_stl_with_gmsh (all_calls_succeed single_tet_model) no_files
     = (Inl (UnknownElementType ''Tetrahedron 4''), no_files)"
    by (simp add: mesh_loaded_convert [OF l] no_files_def)
  have t: "''Tetrahedron 4'' \<notin> set tetra_names" by (simp add: tetra_names_def)
  have h: "''Hexahedron 8'' \<in> set hexa_names" by (simp add: hexa_names_def)
  have s: "str_in ''Tetrahedron'' ''Tetrahedron 4''" by simp
  from c v t h s show ?thesis by simp
qed

end
